theory Spec2Isabelle
  imports Complex_Main "HOL-Library.Log_Nat"
begin

section \<open>JavaScript numbers\<close>

text \<open>
  A JavaScript \<^verbatim>\<open>Number\<close> is an IEEE 754 binary64 value. The finite ones are rationals, and
  every arithmetic operation returns the exact result rounded to the nearest value with a
  53-bit significand, ties to the even significand. \<open>fl\<close> is that rounding. The exponent
  range is left out: the values computed below from vote counts are \<open>0\<close> or lie between
  \<open>2\<^sup>-\<^sup>5\<^sup>3\<close> and \<open>2\<^sup>5\<^sup>4\<close>, far from underflow and overflow.
\<close>

type_synonym number = rat

text \<open>\<open>expo x\<close> is the binary exponent of a positive \<open>x\<close>: \<open>2 powi expo x \<le> x < 2 powi (expo x + 1)\<close>.\<close>

definition expo :: "rat \<Rightarrow> int" where
  "expo x = (let (a, b) = quotient_of x; e0 = bitlen a - bitlen b
             in if 2 powi e0 \<le> x then e0 else e0 - 1)"

text \<open>Rounding to the nearest integer, a tie going to the even neighbour.\<close>

definition rhe :: "rat \<Rightarrow> int" where
  "rhe m = (let f = \<lfloor>m\<rfloor>; r = m - of_int f
            in if r < 1/2 then f else if 1/2 < r then f + 1
               else if even f then f else f + 1)"

definition fl :: "rat \<Rightarrow> number" where
  "fl x = (if x = 0 then 0
           else let s = 2 powi (expo \<bar>x\<bar> - 52)
                in sgn x * of_int (rhe (\<bar>x\<bar> / s)) * s)"

text \<open>\<^verbatim>\<open>Math.round\<close>: the nearest integer, a tie going up.\<close>

definition Math_round :: "number \<Rightarrow> int" where
  "Math_round x = \<lfloor>x + 1/2\<rfloor>"

section \<open>Documents\<close>

text \<open>
  The Mongoose schemas, restricted to the fields the vote ledger and the counters read or
  write. An \<^verbatim>\<open>ObjectId\<close> is a natural number; \<open>nextId\<close> of the store is the id the next
  \<^verbatim>\<open>new Model(...)\<close> receives.
\<close>

type_synonym objectId = nat

record likeDislike_doc =
  ld_id :: objectId
  ld_user :: objectId
  ld_composition :: objectId
  ld_type :: string

record composition_doc =
  c_id :: objectId
  song :: objectId
  composer :: objectId
  likes :: nat
  dislikes :: nat
  rating :: number

record song_doc =
  s_id :: objectId
  addedBy :: objectId
  song_compositionsCount :: nat

text \<open>
  Modelled from the spec: the User schema is not among the sources. The specification's
  voter has an identity and the roll-up \<open>compositionsCount\<close>, which is all the composition
  hook reads and writes of a user.
\<close>

record user_doc =
  u_id :: objectId
  user_compositionsCount :: nat

record db =
  likeDislikes :: "likeDislike_doc list"
  compositions :: "composition_doc list"
  songs :: "song_doc list"
  users :: "user_doc list"
  nextId :: objectId

section \<open>Collections\<close>

text \<open>A collection is the list of its documents in insertion order; a filter is a predicate.\<close>

definition findOne :: "('a \<Rightarrow> bool) \<Rightarrow> 'a list \<Rightarrow> 'a option" where
  "findOne P xs = find P xs"

definition countDocuments :: "('a \<Rightarrow> bool) \<Rightarrow> 'a list \<Rightarrow> nat" where
  "countDocuments P xs = length (filter P xs)"

definition deleteMany :: "('a \<Rightarrow> bool) \<Rightarrow> 'a list \<Rightarrow> 'a list" where
  "deleteMany P xs = filter (\<lambda>x. \<not> P x) xs"

text \<open>\<^verbatim>\<open>findOneAndDelete\<close> and \<^verbatim>\<open>updateOne\<close> touch the first matching document only.\<close>

fun findOneAndDelete :: "('a \<Rightarrow> bool) \<Rightarrow> 'a list \<Rightarrow> 'a list" where
  "findOneAndDelete P [] = []"
| "findOneAndDelete P (x # xs) = (if P x then xs else x # findOneAndDelete P xs)"

fun updateOne :: "('a \<Rightarrow> bool) \<Rightarrow> ('a \<Rightarrow> 'a) \<Rightarrow> 'a list \<Rightarrow> 'a list" where
  "updateOne P f [] = []"
| "updateOne P f (x # xs) = (if P x then f x # xs else x # updateOne P f xs)"

text \<open>
  The middleware names of Mongoose. \<^verbatim>\<open>doc.save()\<close> runs the \<open>Save\<close> hooks,
  \<^verbatim>\<open>doc.remove()\<close> the \<open>Remove\<close> hooks, \<^verbatim>\<open>Model.deleteOne\<close> the \<open>DeleteOne\<close> query hooks,
  \<^verbatim>\<open>Model.deleteMany\<close> the \<open>DeleteMany\<close> query hooks, and \<^verbatim>\<open>Model.findByIdAndDelete\<close>
  the \<open>FindOneAndDelete\<close> query hooks.
\<close>

datatype middleware = Save | Remove | DeleteOne | DeleteMany | FindOneAndDelete

datatype error = ValidationError | DuplicateKey

section \<open>Composition model\<close>

text \<open>
  \<^verbatim>\<open>calculateRating\<close> returns its value and the document it was called on; the document's
  \<open>rating\<close> is assigned only on the path that passes the \<^verbatim>\<open>total === 0\<close> return. The two
  counts are results of \<^verbatim>\<open>countDocuments\<close> and enter the arithmetic as they are, which is
  what a double does with integers up to \<open>2\<^sup>5\<^sup>3\<close>.
\<close>

definition calculateRating :: "composition_doc \<Rightarrow> number \<times> composition_doc" where
  "calculateRating this =
     (let total = fl (of_nat (likes this) + of_nat (dislikes this)) in
      if total = 0 then (0, this)
      else let ratio = fl (of_nat (likes this) / total);
               r = fl (of_int (Math_round (fl (fl (ratio * 5) * 10))) / 10)
           in (r, this\<lparr>rating := r\<rparr>))"

text \<open>\<^verbatim>\<open>songSchema.methods.updateCompositionsCount\<close>; the song schema has no hooks.\<close>

definition updateCompositionsCount :: "song_doc \<Rightarrow> db \<Rightarrow> db" where
  "updateCompositionsCount this s =
     s\<lparr>songs := updateOne (\<lambda>x. s_id x = s_id this)
          (\<lambda>x. x\<lparr>song_compositionsCount :=
                    countDocuments (\<lambda>c. song c = s_id this) (compositions s)\<rparr>)
          (songs s)\<rparr>"

text \<open>The composition schema registers one hook, \<^verbatim>\<open>post('save')\<close>.\<close>

definition composition_post :: "middleware \<Rightarrow> composition_doc \<Rightarrow> db \<Rightarrow> db" where
  "composition_post mw this s =
     (if mw = Save then
        let s1 = (case findOne (\<lambda>u. u_id u = composer this) (users s) of
                    None \<Rightarrow> s
                  | Some user \<Rightarrow>
                      s\<lparr>users := updateOne (\<lambda>u. u_id u = u_id user)
                           (\<lambda>u. u\<lparr>user_compositionsCount :=
                                 countDocuments (\<lambda>c. composer c = composer this) (compositions s)\<rparr>)
                           (users s)\<rparr>)
        in (case findOne (\<lambda>x. s_id x = song this) (songs s1) of
              None \<Rightarrow> s1
            | Some sg \<Rightarrow> updateCompositionsCount sg s1)
      else s)"

text \<open>
  \<^verbatim>\<open>composition.save()\<close>: a new document is inserted, an existing one has its modified
  paths (the three aggregates) written to the stored document with the same \<^verbatim>\<open>_id\<close>; then
  the \<open>Save\<close> hooks run.
\<close>

definition Composition_save :: "bool \<Rightarrow> composition_doc \<Rightarrow> db \<Rightarrow> db" where
  "Composition_save isNew this s =
     composition_post Save this
       (s\<lparr>compositions :=
            (if isNew then compositions s @ [this]
             else updateOne (\<lambda>c. c_id c = c_id this)
                    (\<lambda>c. c\<lparr>likes := likes this, dislikes := dislikes this, rating := rating this\<rparr>)
                    (compositions s))\<rparr>)"

definition Composition_findByIdAndDelete :: "objectId \<Rightarrow> db \<Rightarrow> db" where
  "Composition_findByIdAndDelete i s =
     s\<lparr>compositions := findOneAndDelete (\<lambda>c. c_id c = i) (compositions s)\<rparr>"

definition Composition_deleteMany :: "(composition_doc \<Rightarrow> bool) \<Rightarrow> db \<Rightarrow> db" where
  "Composition_deleteMany P s = s\<lparr>compositions := deleteMany P (compositions s)\<rparr>"

definition Song_findByIdAndDelete :: "objectId \<Rightarrow> db \<Rightarrow> db" where
  "Song_findByIdAndDelete i s = s\<lparr>songs := findOneAndDelete (\<lambda>x. s_id x = i) (songs s)\<rparr>"

section \<open>LikeDislike model\<close>

definition updateCompositionCounts :: "objectId \<Rightarrow> db \<Rightarrow> db" where
  "updateCompositionCounts compositionId s =
     (let likes' = countDocuments
            (\<lambda>d. ld_composition d = compositionId \<and> ld_type d = ''like'') (likeDislikes s);
          dislikes' = countDocuments
            (\<lambda>d. ld_composition d = compositionId \<and> ld_type d = ''dislike'') (likeDislikes s)
      in case findOne (\<lambda>c. c_id c = compositionId) (compositions s) of
           None \<Rightarrow> s
         | Some composition \<Rightarrow>
             Composition_save False
               (snd (calculateRating (composition\<lparr>likes := likes', dislikes := dislikes'\<rparr>))) s)"

text \<open>
  The hooks of the LikeDislike schema: document hooks on \<open>Save\<close> and \<open>Remove\<close>, and a query
  hook on \<open>DeleteOne\<close> that looks for a document still matching the filter. No hook is
  registered for \<open>DeleteMany\<close> or \<open>FindOneAndDelete\<close>.
\<close>

definition likeDislike_post_doc :: "middleware \<Rightarrow> likeDislike_doc \<Rightarrow> db \<Rightarrow> db" where
  "likeDislike_post_doc mw this s =
     (if mw = Save \<or> mw = Remove then updateCompositionCounts (ld_composition this) s else s)"

definition likeDislike_post_query :: "middleware \<Rightarrow> (likeDislike_doc \<Rightarrow> bool) \<Rightarrow> db \<Rightarrow> db" where
  "likeDislike_post_query mw filter' s =
     (if mw = DeleteOne then
        (case findOne filter' (likeDislikes s) of
           None \<Rightarrow> s
         | Some doc \<Rightarrow> updateCompositionCounts (ld_composition doc) s)
      else s)"

text \<open>
  \<^verbatim>\<open>vote.save()\<close>: the schema validates \<open>type\<close> against its enum; the store rejects a new
  document whose \<^verbatim>\<open>_id\<close> or whose \<open>(user, composition)\<close> pair is already present (the
  unique index); an existing document has its modified path \<open>type\<close> written.
\<close>

definition LikeDislike_save :: "bool \<Rightarrow> likeDislike_doc \<Rightarrow> db \<Rightarrow> error + db" where
  "LikeDislike_save isNew this s =
     (if ld_type this \<notin> set [''like'', ''dislike''] then Inl ValidationError
      else if isNew then
        (case findOne (\<lambda>d. ld_id d = ld_id this) (likeDislikes s) of
           Some d \<Rightarrow> Inl DuplicateKey
         | None \<Rightarrow>
            (case findOne (\<lambda>d. ld_user d = ld_user this \<and> ld_composition d = ld_composition this)
                    (likeDislikes s) of
               Some d \<Rightarrow> Inl DuplicateKey
             | None \<Rightarrow> Inr (likeDislike_post_doc Save this
                                (s\<lparr>likeDislikes := likeDislikes s @ [this]\<rparr>))))
      else Inr (likeDislike_post_doc Save this
                  (s\<lparr>likeDislikes := updateOne (\<lambda>d. ld_id d = ld_id this)
                        (\<lambda>d. d\<lparr>ld_type := ld_type this\<rparr>) (likeDislikes s)\<rparr>)))"

definition LikeDislike_findByIdAndDelete :: "objectId \<Rightarrow> db \<Rightarrow> db" where
  "LikeDislike_findByIdAndDelete i s =
     likeDislike_post_query FindOneAndDelete (\<lambda>d. ld_id d = i)
       (s\<lparr>likeDislikes := findOneAndDelete (\<lambda>d. ld_id d = i) (likeDislikes s)\<rparr>)"

definition LikeDislike_deleteMany :: "(likeDislike_doc \<Rightarrow> bool) \<Rightarrow> db \<Rightarrow> db" where
  "LikeDislike_deleteMany P s =
     likeDislike_post_query DeleteMany P (s\<lparr>likeDislikes := deleteMany P (likeDislikes s)\<rparr>)"

section \<open>Routes\<close>

text \<open>
  A handler takes the store, the id of the user that \<^verbatim>\<open>authMiddleware\<close> put into the
  request, the id in the path and the request body's field, and returns the store and the
  response. Ids are well-formed ObjectIds, so the \<^verbatim>\<open>CastError\<close> branch of the handlers does
  not arise.
\<close>

datatype json = JNull | JString string | JNumber number | JId objectId
  | JArray "json list" | JObject "(string \<times> json) list"

record response =
  status :: nat
  body :: "(string \<times> json) list"

definition json_field :: "response \<Rightarrow> string \<Rightarrow> json option" where
  "json_field res k = map_of (body res) k"

definition message :: "nat \<Rightarrow> string \<Rightarrow> response" where
  "message code m = \<lparr>status = code, body = [(''message'', JString m)]\<rparr>"

text \<open>\<^verbatim>\<open>POST /api/compositions/:id/vote\<close>\<close>

definition voteRoute :: "db \<Rightarrow> objectId \<Rightarrow> objectId \<Rightarrow> string \<Rightarrow> db \<times> response" where
  "voteRoute s uid cid ty =
     (if ty \<notin> set [''like'', ''dislike''] then
        (s, \<lparr>status = 400,
             body = [(''message'', JString ''Validation failed''),
                     (''errors'', JArray [JString ''Vote type must be either like or dislike''])]\<rparr>)
      else case findOne (\<lambda>c. c_id c = cid) (compositions s) of
        None \<Rightarrow> (s, message 404 ''Composition not found'')
      | Some composition \<Rightarrow>
          (case findOne (\<lambda>d. ld_user d = uid \<and> ld_composition d = c_id composition)
                  (likeDislikes s) of
             Some existingVote \<Rightarrow>
               if ld_type existingVote = ty then
                 (LikeDislike_findByIdAndDelete (ld_id existingVote) s,
                  \<lparr>status = 200,
                   body = [(''message'', JString ''Vote removed''),
                           (''action'', JString ''removed'')]\<rparr>)
               else
                 (case LikeDislike_save False (existingVote\<lparr>ld_type := ty\<rparr>) s of
                    Inl e \<Rightarrow> (s, message 500 ''Server error while voting on composition'')
                  | Inr s' \<Rightarrow>
                      (s', \<lparr>status = 200,
                            body = [(''message'', JString ''Vote updated''),
                                    (''action'', JString ''updated''),
                                    (''type'', JString ty)]\<rparr>))
           | None \<Rightarrow>
               let newVote = \<lparr>ld_id = nextId s, ld_user = uid,
                              ld_composition = c_id composition, ld_type = ty\<rparr>;
                   s1 = s\<lparr>nextId := Suc (nextId s)\<rparr>
               in (case LikeDislike_save True newVote s1 of
                     Inl e \<Rightarrow> (s1, message 500 ''Server error while voting on composition'')
                   | Inr s' \<Rightarrow>
                       (s', \<lparr>status = 200,
                             body = [(''message'', JString ''Vote added''),
                                     (''action'', JString ''added''),
                                     (''type'', JString ty)]\<rparr>))))"

text \<open>\<^verbatim>\<open>DELETE /api/compositions/:id\<close>\<close>

definition deleteCompositionRoute :: "db \<Rightarrow> objectId \<Rightarrow> objectId \<Rightarrow> db \<times> response" where
  "deleteCompositionRoute s uid cid =
     (case findOne (\<lambda>c. c_id c = cid) (compositions s) of
        None \<Rightarrow> (s, message 404 ''Composition not found'')
      | Some composition \<Rightarrow>
          if composer composition \<noteq> uid then
            (s, message 403 ''Not authorized to delete this composition'')
          else
            let s1 = LikeDislike_deleteMany (\<lambda>d. ld_composition d = c_id composition) s;
                s2 = Composition_findByIdAndDelete cid s1
            in (s2, message 200 ''Composition deleted successfully''))"

text \<open>\<^verbatim>\<open>DELETE /api/songs/:id\<close>\<close>

definition deleteSongRoute :: "db \<Rightarrow> objectId \<Rightarrow> objectId \<Rightarrow> db \<times> response" where
  "deleteSongRoute s uid sid =
     (case findOne (\<lambda>x. s_id x = sid) (songs s) of
        None \<Rightarrow> (s, message 404 ''Song not found'')
      | Some sg \<Rightarrow>
          if addedBy sg \<noteq> uid then
            (s, message 403 ''Not authorized to delete this song'')
          else
            let s1 = Composition_deleteMany (\<lambda>c. song c = s_id sg) s;
                s2 = Song_findByIdAndDelete sid s1
            in (s2, message 200 ''Song and all related compositions deleted successfully''))"

text \<open>
  \<^verbatim>\<open>POST /api/compositions\<close>, for a body that passes the validation of the fields left out
  here and sets none of the aggregates, which then take the schema's defaults. The response
  carries the stored document (its \<^verbatim>\<open>populate\<close> calls are left out).
\<close>

definition composition_json :: "composition_doc \<Rightarrow> json" where
  "composition_json c =
     JObject [(''_id'', JId (c_id c)), (''song'', JId (song c)), (''composer'', JId (composer c)),
              (''likes'', JNumber (of_nat (likes c))), (''dislikes'', JNumber (of_nat (dislikes c))),
              (''rating'', JNumber (rating c))]"

definition createCompositionRoute :: "db \<Rightarrow> objectId \<Rightarrow> objectId \<Rightarrow> db \<times> response" where
  "createCompositionRoute s uid sid =
     (case findOne (\<lambda>x. s_id x = sid) (songs s) of
        None \<Rightarrow> (s, message 404 ''Song not found'')
      | Some sg \<Rightarrow>
          let composition = \<lparr>c_id = nextId s, song = sid, composer = uid,
                             likes = 0, dislikes = 0, rating = 0\<rparr>;
              s' = Composition_save True composition (s\<lparr>nextId := Suc (nextId s)\<rparr>)
          in (s', \<lparr>status = 201,
                   body = [(''message'', JString ''Composition created successfully''),
                           (''composition'',
                            case findOne (\<lambda>c. c_id c = c_id composition) (compositions s') of
                              None \<Rightarrow> JNull | Some c \<Rightarrow> composition_json c)]\<rparr>))"

text \<open>A run of the server: requests handled one after the other.\<close>

datatype request =
    Vote objectId objectId string
  | DeleteComposition objectId objectId
  | DeleteSong objectId objectId
  | CreateComposition objectId objectId

fun handle :: "db \<Rightarrow> request \<Rightarrow> db \<times> response" where
  "handle s (Vote uid cid ty) = voteRoute s uid cid ty"
| "handle s (DeleteComposition uid cid) = deleteCompositionRoute s uid cid"
| "handle s (DeleteSong uid sid) = deleteSongRoute s uid sid"
| "handle s (CreateComposition uid sid) = createCompositionRoute s uid sid"

fun run :: "db \<Rightarrow> request list \<Rightarrow> db" where
  "run s [] = s"
| "run s (r # rs) = run (fst (handle s r)) rs"

section \<open>The specification's notions\<close>

text \<open>
  The value \<^verbatim>\<open>calculateRating\<close> returns for a document with \<open>l\<close> likes and \<open>d\<close> dislikes.
\<close>

definition Rating :: "nat \<Rightarrow> nat \<Rightarrow> number" where
  "Rating l d = fst (calculateRating
     \<lparr>c_id = 0, song = 0, composer = 0, likes = l, dislikes = d, rating = 0\<rparr>)"

text \<open>
  The rating as the specification words it, in exact arithmetic: \<open>0\<close> without votes,
  otherwise \<open>likes / (likes + dislikes) * 5\<close> rounded half up to one decimal.
\<close>

definition Rating_spec :: "nat \<Rightarrow> nat \<Rightarrow> rat" where
  "Rating_spec l d =
     (if l + d = 0 then 0
      else of_int \<lfloor>(of_nat l :: rat) / of_nat (l + d) * 5 * 10 + 1/2\<rfloor> / 10)"

text \<open>The exact value \<open>likes / (likes + dislikes) * 50\<close> lies halfway between two integers.\<close>

definition is_tie :: "nat \<Rightarrow> nat \<Rightarrow> bool" where
  "is_tie l d = ((100 * l + (l + d)) mod (2 * (l + d)) = 0)"

text \<open>The product \<^verbatim>\<open>ratio * 5 * 10\<close> as the code computes it, and the value it returns.\<close>

definition scaled :: "nat \<Rightarrow> nat \<Rightarrow> number" where
  "scaled l t = fl (fl (fl (of_nat l / of_nat t) * 5) * 10)"

definition rounded :: "nat \<Rightarrow> nat \<Rightarrow> number" where
  "rounded l t = fl (of_int (Math_round (scaled l t)) / 10)"

text \<open>\<open>CountByPolarity\<close> of the ledger.\<close>

definition likeCount :: "objectId \<Rightarrow> likeDislike_doc list \<Rightarrow> nat" where
  "likeCount t xs = countDocuments (\<lambda>d. ld_composition d = t \<and> ld_type d = ''like'') xs"

definition dislikeCount :: "objectId \<Rightarrow> likeDislike_doc list \<Rightarrow> nat" where
  "dislikeCount t xs = countDocuments (\<lambda>d. ld_composition d = t \<and> ld_type d = ''dislike'') xs"

text \<open>The ledger entry of a voter for a target, \<open>FindVote\<close>.\<close>

definition findVote :: "objectId \<Rightarrow> objectId \<Rightarrow> likeDislike_doc list \<Rightarrow> likeDislike_doc option" where
  "findVote v t xs = findOne (\<lambda>d. ld_user d = v \<and> ld_composition d = t) xs"

text \<open>
  ObjectIds are unique: the stored votes have distinct ids, all handed out before \<open>nextId\<close>.
\<close>

definition ids_fresh :: "db \<Rightarrow> bool" where
  "ids_fresh s = (distinct (map ld_id (likeDislikes s))
                  \<and> list_all (\<lambda>d. ld_id d < nextId s) (likeDislikes s))"

text \<open>No two ledger entries share their \<open>(user, composition)\<close> pair.\<close>

definition votes_unique :: "likeDislike_doc list \<Rightarrow> bool" where
  "votes_unique xs = distinct (map (\<lambda>d. (ld_user d, ld_composition d)) xs)"

text \<open>
  A store with one song, added by user 10, and two users; nothing composed or voted yet.
\<close>

definition base :: db where
  "base = \<lparr>likeDislikes = [], compositions = [],
           songs = [\<lparr>s_id = 5, addedBy = 10, song_compositionsCount = 0\<rparr>],
           users = [\<lparr>u_id = 10, user_compositionsCount = 0\<rparr>,
                    \<lparr>u_id = 7, user_compositionsCount = 0\<rparr>],
           nextId = 100\<rparr>"

text \<open>The same store after user 10 composed for song 5, and after user 7 liked that composition.\<close>

definition s_composed :: db where
  "s_composed = run base [CreateComposition 10 5]"

definition s_voted :: db where
  "s_voted = run base [CreateComposition 10 5, Vote 7 100 ''like'']"

text \<open>Two compositions created by user 10 for song 5, the second one deleted again.\<close>

definition s_stale :: db where
  "s_stale = run base [CreateComposition 10 5, CreateComposition 10 5, DeleteComposition 10 101]"

section \<open>Rounding to a double\<close>

lemma bitlen_powi:
  assumes "0 < a"
  shows "(2::rat) powi (bitlen a - 1) \<le> of_int a" "of_int a < (2::rat) powi bitlen a"
proof -
  from bitlen_bounds[OF assms] have 1: "2 ^ nat (bitlen a - 1) \<le> a" and 2: "a < 2 ^ nat (bitlen a)"
    by auto
  have p: "bitlen a \<ge> 1" using assms bitlen_eq_zero_iff[of a] bitlen_nonneg[of a] by linarith
  have "(of_int (2 ^ nat (bitlen a - 1)) :: rat) \<le> of_int a" using 1 of_int_le_iff by blast
  then show "(2::rat) powi (bitlen a - 1) \<le> of_int a" using p by (simp add: power_int_def)
  have "(of_int a :: rat) < of_int (2 ^ nat (bitlen a))" using 2 of_int_less_iff by blast
  then show "of_int a < (2::rat) powi bitlen a" using p by (simp add: power_int_def)
qed

lemma expo_bounds:
  assumes "0 < x"
  shows "2 powi (expo x) \<le> x" "x < 2 powi (expo x + 1)"
proof -
  obtain a b where q: "quotient_of x = (a, b)" by (cases "quotient_of x")
  have b: "0 < b" using q by (rule quotient_of_denom_pos)
  have x: "x = of_int a / of_int b" using q by (rule quotient_of_div)
  have a: "0 < a" using assms b x by (simp add: zero_less_divide_iff)
  define e0 where "e0 = bitlen a - bitlen b"
  note A = bitlen_powi[OF a] and B = bitlen_powi[OF b]
  have bpos: "(0::rat) < of_int b" using b by simp
  have up: "x < 2 powi (e0 + 1)"
  proof -
    have "x < 2 powi bitlen a / of_int b"
      unfolding x using A(2) bpos by (simp add: divide_strict_right_mono)
    also have "\<dots> \<le> 2 powi bitlen a / 2 powi (bitlen b - 1)"
      using B(1) b by (intro divide_left_mono) (auto intro!: mult_pos_pos)
    also have "\<dots> = 2 powi (bitlen a - (bitlen b - 1))"
      by (rule power_int_diff[symmetric]) simp
    also have "\<dots> = 2 powi (e0 + 1)" unfolding e0_def by (simp add: algebra_simps)
    finally show ?thesis .
  qed
  have lo: "2 powi (e0 - 1) < x"
  proof -
    have "(2::rat) powi (e0 - 1) = 2 powi (bitlen a - 1 - bitlen b)"
      unfolding e0_def by (simp add: algebra_simps)
    also have "\<dots> = 2 powi (bitlen a - 1) / 2 powi bitlen b"
      by (rule power_int_diff) simp
    also have "\<dots> < 2 powi (bitlen a - 1) / of_int b"
      using B(2) b by (intro divide_strict_left_mono) (auto intro!: mult_pos_pos)
    also have "\<dots> \<le> x" unfolding x using A(1) bpos by (simp add: divide_right_mono)
    finally show ?thesis .
  qed
  have e: "expo x = (if 2 powi e0 \<le> x then e0 else e0 - 1)"
    by (simp add: expo_def q e0_def Let_def)
  show "2 powi (expo x) \<le> x" using lo by (simp add: e)
  show "x < 2 powi (expo x + 1)" using up by (auto simp add: e)
qed

lemma powi_mono2: "a \<le> b \<Longrightarrow> (2::rat) powi a \<le> 2 powi b"
  by (rule power_int_increasing) auto

lemma powi_le_cancel: "(2::rat) powi a \<le> 2 powi b \<Longrightarrow> a \<le> b"
  using power_int_strict_increasing[of b a "2::rat"] by (cases "a \<le> b") auto

lemma powi_less_cancel: "(2::rat) powi a < 2 powi b \<Longrightarrow> a < b"
  using powi_mono2[of b a] by (cases "a < b") auto

lemma expo_mono:
  assumes "0 < x" "x \<le> y"
  shows "expo x \<le> expo y"
proof (rule ccontr)
  assume "\<not> expo x \<le> expo y"
  then have "expo y + 1 \<le> expo x" by simp
  then have "(2::rat) powi (expo y + 1) \<le> 2 powi expo x" by (rule powi_mono2)
  moreover have "0 < y" using assms by simp
  ultimately show False
    using expo_bounds(1)[OF assms(1)] expo_bounds(2)[of y] assms(2) by linarith
qed

lemma rhe_of_int: "rhe (of_int k) = k"
  by (simp add: rhe_def)

lemma rhe_bounds: "\<lfloor>m\<rfloor> \<le> rhe m" "rhe m \<le> \<lfloor>m\<rfloor> + 1"
  by (simp_all add: rhe_def Let_def)

lemma rhe_err: "\<bar>of_int (rhe m) - m\<bar> \<le> 1/2"
proof -
  have "of_int \<lfloor>m\<rfloor> \<le> m" "m < of_int \<lfloor>m\<rfloor> + 1" by linarith+
  then show ?thesis by (auto simp add: rhe_def Let_def)
qed

lemma rhe_mono:
  assumes "x \<le> y"
  shows "rhe x \<le> rhe y"
proof (cases "\<lfloor>x\<rfloor> = \<lfloor>y\<rfloor>")
  case True
  then show ?thesis using assms by (auto simp add: rhe_def Let_def)
next
  case False
  then have "\<lfloor>x\<rfloor> + 1 \<le> \<lfloor>y\<rfloor>" using floor_mono[OF assms] by linarith
  then show ?thesis using rhe_bounds(2)[of x] rhe_bounds(1)[of y] by linarith
qed

lemma fl_pos_eq:
  "0 < x \<Longrightarrow> fl x = of_int (rhe (x / 2 powi (expo x - 52))) * 2 powi (expo x - 52)"
  by (simp add: fl_def Let_def)

lemma mant_bounds:
  assumes "0 < x"
  shows "2 ^ 52 \<le> x / 2 powi (expo x - 52)" "x / 2 powi (expo x - 52) < 2 ^ 53"
proof -
  have s: "(0::rat) < 2 powi (expo x - 52)" by simp
  have 1: "(2::rat) powi expo x = 2 ^ 52 * 2 powi (expo x - 52)"
    by (simp add: power_int_diff)
  have 2: "(2::rat) powi (expo x + 1) = 2 ^ 53 * 2 powi (expo x - 52)"
    by (simp add: power_int_diff power_int_add)
  show "2 ^ 52 \<le> x / 2 powi (expo x - 52)"
    using expo_bounds(1)[OF assms] s unfolding 1 by (simp add: pos_le_divide_eq)
  show "x / 2 powi (expo x - 52) < 2 ^ 53"
    using expo_bounds(2)[OF assms] s unfolding 2 by (simp add: pos_divide_less_eq)
qed

lemma fl_bounds:
  assumes "0 < x"
  shows "2 powi expo x \<le> fl x" "fl x \<le> 2 powi (expo x + 1)"
proof -
  let ?s = "(2::rat) powi (expo x - 52)"
  have s: "0 < ?s" by simp
  have "rhe (of_int (2 ^ 52)) \<le> rhe (x / ?s)"
    using mant_bounds(1)[OF assms] by (intro rhe_mono) simp
  then have "(2::int) ^ 52 \<le> rhe (x / ?s)" unfolding rhe_of_int .
  then have "(of_int (2 ^ 52) :: rat) \<le> of_int (rhe (x / ?s))" using of_int_le_iff by blast
  then have "2 ^ 52 * ?s \<le> of_int (rhe (x / ?s)) * ?s" using s by simp
  moreover have "(2::rat) powi expo x = 2 ^ 52 * ?s" by (simp add: power_int_diff)
  ultimately show "2 powi expo x \<le> fl x" using assms by (simp add: fl_pos_eq)
  have "rhe (x / ?s) \<le> rhe (of_int (2 ^ 53))"
    using mant_bounds(2)[OF assms] by (intro rhe_mono) simp
  then have "rhe (x / ?s) \<le> 2 ^ 53" unfolding rhe_of_int .
  then have "(of_int (rhe (x / ?s)) :: rat) \<le> of_int (2 ^ 53)" using of_int_le_iff by blast
  then have "of_int (rhe (x / ?s)) * ?s \<le> 2 ^ 53 * ?s" using s by simp
  moreover have "(2::rat) powi (expo x + 1) = 2 ^ 53 * ?s"
    by (simp add: power_int_diff power_int_add)
  ultimately show "fl x \<le> 2 powi (expo x + 1)" using assms by (simp add: fl_pos_eq)
qed

lemma fl_pos: "0 < x \<Longrightarrow> 0 < fl x"
  using fl_bounds(1)[of x] zero_less_power_int[of "2::rat" "expo x"] by linarith

lemma fl_mono:
  assumes "0 \<le> x" "x \<le> y"
  shows "fl x \<le> fl y"
proof (cases "x = 0")
  case True
  show ?thesis
  proof (cases "y = 0")
    case True with \<open>x = 0\<close> show ?thesis by simp
  next
    case False
    then have "0 < y" using assms True by simp
    from fl_pos[OF this] True show ?thesis by (simp add: fl_def)
  qed
next
  case False
  then have x: "0 < x" using assms by simp
  then have y: "0 < y" using assms by simp
  show ?thesis
  proof (cases "expo x = expo y")
    case True
    have "x / 2 powi (expo y - 52) \<le> y / 2 powi (expo y - 52)"
      using assms(2) by (simp add: divide_right_mono)
    then have "rhe (x / 2 powi (expo y - 52)) \<le> rhe (y / 2 powi (expo y - 52))"
      by (rule rhe_mono)
    then have "(of_int (rhe (x / 2 powi (expo y - 52))) :: rat)
                 \<le> of_int (rhe (y / 2 powi (expo y - 52)))"
      using of_int_le_iff by blast
    then show ?thesis using x y True by (simp add: fl_pos_eq)
  next
    case False
    then have "expo x + 1 \<le> expo y" using expo_mono[OF x assms(2)] by simp
    then have "(2::rat) powi (expo x + 1) \<le> 2 powi expo y" by (rule powi_mono2)
    then show ?thesis using fl_bounds(2)[OF x] fl_bounds(1)[OF y] by linarith
  qed
qed

lemma fl_err:
  assumes "0 \<le> x"
  shows "\<bar>fl x - x\<bar> \<le> x / 2 ^ 53"
proof (cases "x = 0")
  case True then show ?thesis by (simp add: fl_def)
next
  case False
  then have x: "0 < x" using assms by simp
  let ?s = "(2::rat) powi (expo x - 52)"
  have s: "0 < ?s" by simp
  have "fl x - x = (of_int (rhe (x / ?s)) - x / ?s) * ?s"
    using x s by (simp add: fl_pos_eq algebra_simps)
  then have "\<bar>fl x - x\<bar> = \<bar>of_int (rhe (x / ?s)) - x / ?s\<bar> * ?s"
    using s by (simp add: abs_mult)
  also have "\<dots> \<le> 1/2 * ?s" using rhe_err[of "x / ?s"] s by (intro mult_right_mono) auto
  also have "\<dots> = 2 powi expo x / 2 ^ 53" by (simp add: power_int_diff)
  also have "\<dots> \<le> x / 2 ^ 53" using expo_bounds(1)[OF x] by (simp add: divide_right_mono)
  finally show ?thesis .
qed

lemma fl_of_nat:
  assumes "n \<le> 2 ^ 53"
  shows "fl (of_nat n) = of_nat n"
proof (cases "n = 0")
  case True then show ?thesis by (simp add: fl_def)
next
  case False
  let ?x = "of_nat n :: rat"
  have x: "0 < ?x" using False by simp
  have le: "?x \<le> 2 ^ 53" using assms by (metis of_nat_le_iff of_nat_numeral of_nat_power)
  have "(2::rat) powi expo ?x \<le> 2 powi 53" using expo_bounds(1)[OF x] le by simp
  then have e53: "expo ?x \<le> 53" by (rule powi_le_cancel)
  have "(1::rat) \<le> ?x" using False by simp
  then have "(2::rat) powi 0 < 2 powi (expo ?x + 1)" using expo_bounds(2)[OF x] by simp
  then have "0 < expo ?x + 1" by (rule powi_less_cancel)
  then have e0: "0 \<le> expo ?x" by simp
  have eq: "fl ?x = of_int (rhe (?x / 2 powi (expo ?x - 52))) * 2 powi (expo ?x - 52)"
    by (rule fl_pos_eq[OF x])
  show ?thesis
  proof (cases "expo ?x = 53")
    case True
    then have top: "?x = 2 ^ 53" using expo_bounds(1)[OF x] le by simp
    then have m: "?x / 2 powi (expo ?x - 52) = of_int (2 ^ 52)" using True by simp
    note eq
    also have "of_int (rhe (?x / 2 powi (expo ?x - 52))) * 2 powi (expo ?x - 52)
                 = of_int (rhe (of_int (2 ^ 52))) * 2 powi (expo ?x - 52)"
      by (simp only: m)
    also have "\<dots> = (of_int (2 ^ 52) :: rat) * 2 powi (53 - 52)"
      by (simp only: rhe_of_int True)
    also have "\<dots> = 2 ^ 53" by simp
    finally show ?thesis using top by simp
  next
    case False
    then have k: "expo ?x \<le> 52" using e53 by simp
    define k where "k = nat (52 - expo ?x)"
    have sc: "(2::rat) powi (expo ?x - 52) = 1 / 2 ^ k"
      using k unfolding k_def by (simp add: power_int_def field_simps)
    then have m: "?x / 2 powi (expo ?x - 52) = of_int (int n * 2 ^ k)" by simp
    note eq
    also have "of_int (rhe (?x / 2 powi (expo ?x - 52))) * 2 powi (expo ?x - 52)
                 = of_int (rhe (of_int (int n * 2 ^ k))) * 2 powi (expo ?x - 52)"
      by (simp only: m)
    also have "\<dots> = (of_int (int n * 2 ^ k) :: rat) * (1 / 2 ^ k)"
      by (simp only: rhe_of_int sc)
    also have "\<dots> = ?x" by simp
    finally show ?thesis .
  qed
qed

lemma fl_nonneg: "0 \<le> x \<Longrightarrow> 0 \<le> fl x"
  using fl_mono[of 0 x] by (simp add: fl_def)


lemma fl_1: "fl 1 = 1"
  using fl_of_nat[of 1] by simp

lemma fl_5: "fl 5 = 5"
  using fl_of_nat[of 5] by simp







lemma ratio_lt_1:
  fixes a b :: rat
  shows "a < b \<Longrightarrow> 0 < b \<Longrightarrow> a / b < 1"
  by simp

section \<open>The rating calculator\<close>

lemma calculateRating_fst:
  assumes "likes c + dislikes c \<le> 2 ^ 53"
  shows "fst (calculateRating c) =
     (if likes c + dislikes c = 0 then 0 else rounded (likes c) (likes c + dislikes c))"
proof -
  have "fl (of_nat (likes c) + of_nat (dislikes c)) = of_nat (likes c + dislikes c)"
    using fl_of_nat[OF assms] by simp
  then show ?thesis
    by (simp add: calculateRating_def scaled_def rounded_def Let_def)
qed

lemma calculateRating_Rating: "fst (calculateRating c) = Rating (likes c) (dislikes c)"
  by (simp add: Rating_def calculateRating_def Let_def)

lemma Rating_eq:
  assumes "l + d \<le> 2 ^ 53"
  shows "Rating l d = (if l + d = 0 then 0 else rounded l (l + d))"
  unfolding Rating_def using assms by (subst calculateRating_fst) simp_all








lemma scaled_err:
  assumes "l \<le> t" "0 < t"
  shows "\<bar>scaled l t - of_nat l / of_nat t * 5 * 10\<bar> \<le> 150 / 2 ^ 53"
proof -
  define q :: rat where "q = of_nat l / of_nat t"
  define r1 where "r1 = fl q"
  define r2 where "r2 = fl (r1 * 5)"
  define r3 where "r3 = fl (r2 * 10)"
  have q0: "0 \<le> q" unfolding q_def by simp
  have q1: "q \<le> 1" unfolding q_def using assms by simp
  have a0: "0 \<le> r1" unfolding r1_def using q0 by (rule fl_nonneg)
  have a1: "r1 \<le> 1" unfolding r1_def using fl_mono[OF q0 q1] by (simp add: fl_1)
  have e1: "\<bar>r1 - q\<bar> \<le> q / 2 ^ 53" unfolding r1_def using q0 by (rule fl_err)
  have p0: "0 \<le> r1 * 5" using a0 by simp
  have b0: "0 \<le> r2" unfolding r2_def using p0 by (rule fl_nonneg)
  have "r2 \<le> fl 5" unfolding r2_def using p0 a1 by (intro fl_mono) auto
  then have b1: "r2 \<le> 5" by (simp add: fl_5)
  have e2: "\<bar>r2 - r1 * 5\<bar> \<le> r1 * 5 / 2 ^ 53" unfolding r2_def using p0 by (rule fl_err)
  have p1: "0 \<le> r2 * 10" using b0 by simp
  have e3: "\<bar>r3 - r2 * 10\<bar> \<le> r2 * 10 / 2 ^ 53" unfolding r3_def using p1 by (rule fl_err)
  define U :: rat where "U = 1 / 2 ^ 53"
  have U: "0 < U" unfolding U_def by simp
  have "q / 2 ^ 53 = q * U" "r1 * 5 / 2 ^ 53 = r1 * 5 * U" "r2 * 10 / 2 ^ 53 = r2 * 10 * U"
    unfolding U_def by simp_all
  moreover have "q * U \<le> 1 * U" using q1 U by (intro mult_right_mono) auto
  moreover have "r1 * 5 * U \<le> 5 * U" using a1 U by (intro mult_right_mono) auto
  moreover have "r2 * 10 * U \<le> 50 * U" using b1 U by (intro mult_right_mono) auto
  ultimately have d: "\<bar>r1 - q\<bar> \<le> U" "\<bar>r2 - r1 * 5\<bar> \<le> 5 * U" "\<bar>r3 - r2 * 10\<bar> \<le> 50 * U"
    using e1 e2 e3 by linarith+
  have "\<bar>r3 - q * 5 * 10\<bar> \<le> 150 * U" using d by linarith
  then have "\<bar>r3 - q * 5 * 10\<bar> \<le> 150 / 2 ^ 53" unfolding U_def by simp
  then show ?thesis unfolding scaled_def r3_def r2_def r1_def q_def .
qed

lemma half_up_split:
  assumes "0 < t"
  shows "of_nat l / of_nat t * 5 * 10 + 1/2 =
         (of_int (int ((100 * l + t) div (2 * t))) :: rat) + of_nat ((100 * l + t) mod (2 * t)) / of_nat (2 * t)"
proof -
  let ?N = "100 * l + t" and ?D = "2 * t"
  have D: "(0::rat) < of_nat ?D" using assms by simp
  have "(of_nat ?N :: rat) = of_nat (?D * (?N div ?D) + ?N mod ?D)" by simp
  also have "\<dots> = of_nat ?D * of_nat (?N div ?D) + of_nat (?N mod ?D)"
    by (simp only: of_nat_add of_nat_mult)
  finally have "(of_nat ?N :: rat) / of_nat ?D = of_nat (?N div ?D) + of_nat (?N mod ?D) / of_nat ?D"
    using D by (simp add: field_simps)
  moreover have "of_nat l / of_nat t * 5 * 10 + 1/2 = (of_nat ?N :: rat) / of_nat ?D"
    using assms by (simp add: field_simps)
  ultimately show ?thesis by simp
qed

lemma floor_near:
  fixes x r f g E :: rat
  assumes "\<bar>r - x\<bar> \<le> E" "E < g" "x + 1/2 = of_int K + f"
  shows "g \<le> f \<Longrightarrow> f \<le> 1 - g \<Longrightarrow> \<lfloor>r + 1/2\<rfloor> = K"
    and "0 \<le> f \<Longrightarrow> f \<le> 1 - g \<Longrightarrow> g \<le> 1 \<Longrightarrow> \<lfloor>r + 1/2\<rfloor> = K \<or> \<lfloor>r + 1/2\<rfloor> = K - 1"
proof -
  show "\<lfloor>r + 1/2\<rfloor> = K" if "g \<le> f" "f \<le> 1 - g"
  proof (rule floor_unique)
    show "of_int K \<le> r + 1/2" using assms that by linarith
    show "r + 1/2 < of_int K + 1" using assms that by linarith
  qed
  show "\<lfloor>r + 1/2\<rfloor> = K \<or> \<lfloor>r + 1/2\<rfloor> = K - 1" if "0 \<le> f" "f \<le> 1 - g" "g \<le> 1"
  proof -
    have "of_int K - 1 \<le> r + 1/2" using assms that by linarith
    then have 1: "of_int (K - 1) \<le> r + 1/2" by simp
    have "r + 1/2 < of_int K + 1" using assms that by linarith
    then have 2: "r + 1/2 < of_int (K + 1)" by simp
    have "K - 1 \<le> \<lfloor>r + 1/2\<rfloor>" using 1 by (simp only: le_floor_iff)
    moreover have "\<lfloor>r + 1/2\<rfloor> < K + 1" using 2 by (simp only: floor_less_iff)
    ultimately show ?thesis by linarith
  qed
qed

lemma Math_round_scaled:
  assumes "l \<le> t" "0 < t" "t \<le> 2 ^ 44"
  defines "K \<equiv> \<lfloor>(of_nat l :: rat) / of_nat t * 5 * 10 + 1/2\<rfloor>"
  shows "(100 * l + t) mod (2 * t) \<noteq> 0 \<Longrightarrow> Math_round (scaled l t) = K"
    and "Math_round (scaled l t) = K \<or> Math_round (scaled l t) = K - 1"
proof -
  let ?x = "(of_nat l :: rat) / of_nat t * 5 * 10"
  let ?N = "100 * l + t" and ?D = "2 * t"
  let ?r = "?N mod ?D"
  define f :: rat where "f = of_nat ?r / of_nat ?D"
  define g :: rat where "g = 1 / of_nat ?D"
  have D: "(0::rat) < of_nat ?D" using assms by simp
  have split: "?x + 1/2 = of_int (int (?N div ?D)) + f"
    unfolding f_def using half_up_split[OF assms(2)] .
  have r_lt: "?r < ?D" using assms(2) by simp
  have frac0: "0 \<le> f" unfolding f_def by simp
  have "(of_nat ?r :: rat) < of_nat ?D" using r_lt of_nat_less_iff by blast
  then have frac1: "f < 1" unfolding f_def using D by (rule ratio_lt_1)
  have K: "K = int (?N div ?D)"
    unfolding K_def split by (rule floor_unique) (use frac0 frac1 in auto)
  have xK: "?x + 1/2 = of_int K + f" using split K by simp
  have err: "\<bar>scaled l t - ?x\<bar> \<le> 150 / 2 ^ 53" using scaled_err[OF assms(1,2)] .
  have "(of_nat ?D :: rat) \<le> of_nat (2 * 2 ^ 44)" using assms(3) of_nat_le_iff by fastforce
  then have Dle: "(of_nat ?D :: rat) \<le> 2 ^ 45" by simp
  have gap: "(150::rat) / 2 ^ 53 < g"
  proof -
    have "(150::rat) / 2 ^ 53 < 1 / 2 ^ 45" by simp
    also have "\<dots> \<le> 1 / of_nat ?D" using Dle D by (intro divide_left_mono) auto
    finally show ?thesis unfolding g_def .
  qed
  have "?r + 1 \<le> ?D" using r_lt by simp
  then have "(of_nat (?r + 1) :: rat) \<le> of_nat ?D" using of_nat_le_iff by blast
  then have "(of_nat ?r :: rat) \<le> of_nat ?D - 1" by simp
  then have "f \<le> (of_nat ?D - 1) / of_nat ?D"
    unfolding f_def using D by (simp only: divide_right_mono less_imp_le)
  also have "\<dots> = 1 - g" unfolding g_def using D by (simp add: field_simps)
  finally have hi: "f \<le> 1 - g" .
  have "(1::rat) \<le> of_nat ?D" using assms(2) of_nat_le_iff[of 1 ?D, where ?'a = rat] by simp
  then have g1: "g \<le> 1" unfolding g_def using D by (simp only: divide_le_eq_1_pos) 
  show "Math_round (scaled l t) = K" if nt: "?r \<noteq> 0"
  proof -
    have "1 \<le> ?r" using nt by simp
    then have "(1::rat) \<le> of_nat ?r" using of_nat_le_iff[of 1 ?r, where ?'a = rat] by simp
    then have lo: "g \<le> f" unfolding f_def g_def using D by (simp only: divide_right_mono less_imp_le)
    show ?thesis unfolding Math_round_def using floor_near(1)[OF err gap xK lo hi] .
  qed
  show "Math_round (scaled l t) = K \<or> Math_round (scaled l t) = K - 1"
    unfolding Math_round_def using floor_near(2)[OF err gap xK frac0 hi g1] .
qed

section \<open>Facts about collections\<close>

lemma findOne_None_iff: "findOne P xs = None \<longleftrightarrow> (\<forall>x\<in>set xs. \<not> P x)"
  by (auto simp add: findOne_def find_None_iff)

lemma findOne_SomeD: "findOne P xs = Some x \<Longrightarrow> P x \<and> x \<in> set xs"
  unfolding findOne_def by (induction xs) (auto split: if_splits)

lemma findOne_append:
  "findOne P (xs @ ys) = (case findOne P xs of None \<Rightarrow> findOne P ys | Some x \<Rightarrow> Some x)"
  unfolding findOne_def by (induction xs) auto

lemma updateOne_map_key:
  assumes "\<And>x. k (f x) = k x"
  shows "map k (updateOne P f xs) = map k xs"
  using assms by (induction xs) auto

lemma updateOne_length: "length (updateOne P f xs) = length xs"
  by (induction xs) auto

lemma updateOne_distinct:
  assumes "distinct (map k xs)"
  shows "updateOne (\<lambda>x. k x = i) f xs = map (\<lambda>x. if k x = i then f x else x) xs"
  using assms
proof (induction xs)
  case Nil
  then show ?case by simp
next
  case (Cons x xs)
  show ?case
  proof (cases "k x = i")
    case True
    from Cons.prems have "k x \<notin> k ` set xs" by simp
    with True have "\<forall>y\<in>set xs. k y \<noteq> i" by blast
    then have "map (\<lambda>x. if k x = i then f x else x) xs = xs" by (simp add: map_idI)
    then show ?thesis using True by simp
  next
    case False
    then show ?thesis using Cons by simp
  qed
qed

lemma findOneAndDelete_distinct:
  assumes "distinct (map k xs)"
  shows "findOneAndDelete (\<lambda>x. k x = i) xs = filter (\<lambda>x. k x \<noteq> i) xs"
  using assms
proof (induction xs)
  case Nil
  then show ?case by simp
next
  case (Cons x xs)
  show ?case
  proof (cases "k x = i")
    case True
    from Cons.prems have "k x \<notin> k ` set xs" by simp
    with True have "\<forall>y\<in>set xs. k y \<noteq> i" by blast
    then have "filter (\<lambda>x. k x \<noteq> i) xs = xs" by simp
    then show ?thesis using True by simp
  next
    case False
    then show ?thesis using Cons by simp
  qed
qed

lemma findOneAndDelete_none: "\<forall>x\<in>set xs. \<not> P x \<Longrightarrow> findOneAndDelete P xs = xs"
  by (induction xs) auto

lemma findOneAndDelete_append_last:
  "\<forall>x\<in>set xs. \<not> P x \<Longrightarrow> P y \<Longrightarrow> findOneAndDelete P (xs @ [y]) = xs"
  by (induction xs) auto

lemma findOneAndDelete_subset: "set (findOneAndDelete P xs) \<subseteq> set xs"
  by (induction xs) auto

lemma findOneAndDelete_distinct_map:
  "distinct (map k xs) \<Longrightarrow> distinct (map k (findOneAndDelete P xs))"
proof (induction xs)
  case Nil
  then show ?case by simp
next
  case (Cons x xs)
  have "k ` set (findOneAndDelete P xs) \<subseteq> k ` set xs"
    using findOneAndDelete_subset[of P xs] by blast
  then show ?case using Cons by auto
qed

section \<open>What the hooks leave alone\<close>

lemma updateCompositionsCount_frame:
  "likeDislikes (updateCompositionsCount sg s) = likeDislikes s"
  "compositions (updateCompositionsCount sg s) = compositions s"
  "users (updateCompositionsCount sg s) = users s"
  "nextId (updateCompositionsCount sg s) = nextId s"
  by (simp_all add: updateCompositionsCount_def)

lemma composition_post_frame:
  "likeDislikes (composition_post mw c s) = likeDislikes s"
  "compositions (composition_post mw c s) = compositions s"
  "nextId (composition_post mw c s) = nextId s"
  by (simp_all add: composition_post_def Let_def updateCompositionsCount_frame
      split: option.splits)

lemma Composition_save_frame:
  "likeDislikes (Composition_save b c s) = likeDislikes s"
  "nextId (Composition_save b c s) = nextId s"
  by (simp_all add: Composition_save_def composition_post_frame)

lemma updateCompositionCounts_frame:
  "likeDislikes (updateCompositionCounts i s) = likeDislikes s"
  "nextId (updateCompositionCounts i s) = nextId s"
  by (simp_all add: updateCompositionCounts_def Let_def Composition_save_frame
      split: option.splits)

lemma updateCompositionCounts_ids:
  "map c_id (compositions (updateCompositionCounts i s)) = map c_id (compositions s)"
  by (simp add: updateCompositionCounts_def Let_def Composition_save_def composition_post_frame
      updateOne_map_key split: option.splits)

lemma likeDislike_post_doc_frame:
  "likeDislikes (likeDislike_post_doc mw d s) = likeDislikes s"
  "nextId (likeDislike_post_doc mw d s) = nextId s"
  "map c_id (compositions (likeDislike_post_doc mw d s)) = map c_id (compositions s)"
  by (simp_all add: likeDislike_post_doc_def updateCompositionCounts_frame
      updateCompositionCounts_ids)

lemma likeDislike_post_query_unregistered:
  "mw \<noteq> DeleteOne \<Longrightarrow> likeDislike_post_query mw P s = s"
  by (simp add: likeDislike_post_query_def)

lemma LikeDislike_findByIdAndDelete_eq:
  "LikeDislike_findByIdAndDelete i s =
     s\<lparr>likeDislikes := findOneAndDelete (\<lambda>d. ld_id d = i) (likeDislikes s)\<rparr>"
  by (simp add: LikeDislike_findByIdAndDelete_def likeDislike_post_query_unregistered)

lemma LikeDislike_deleteMany_eq:
  "LikeDislike_deleteMany P s = s\<lparr>likeDislikes := deleteMany P (likeDislikes s)\<rparr>"
  by (simp add: LikeDislike_deleteMany_def likeDislike_post_query_unregistered)

lemma findOne_c_id_map:
  "map c_id xs = map c_id ys \<Longrightarrow>
     (findOne (\<lambda>c. c_id c = i) xs = None) = (findOne (\<lambda>c. c_id c = i) ys = None)"
proof -
  assume "map c_id xs = map c_id ys"
  then have "c_id ` set xs = c_id ` set ys" by (metis set_map)
  then show ?thesis unfolding findOne_None_iff by (metis (no_types, lifting) image_iff)
qed

section \<open>The vote handler, case by case\<close>

lemma vote_invalid:
  "ty \<notin> set [''like'', ''dislike''] \<Longrightarrow>
     voteRoute s uid cid ty =
       (s, \<lparr>status = 400,
            body = [(''message'', JString ''Validation failed''),
                    (''errors'', JArray [JString ''Vote type must be either like or dislike''])]\<rparr>)"
  by (simp add: voteRoute_def)

lemma vote_not_found:
  "ty \<in> set [''like'', ''dislike''] \<Longrightarrow> findOne (\<lambda>c. c_id c = cid) (compositions s) = None \<Longrightarrow>
     voteRoute s uid cid ty = (s, message 404 ''Composition not found'')"
  by (simp add: voteRoute_def)

lemma vote_removed:
  assumes "ty \<in> set [''like'', ''dislike'']"
      and "findOne (\<lambda>c. c_id c = cid) (compositions s) = Some c"
      and "findVote uid cid (likeDislikes s) = Some e" and "ld_type e = ty"
  shows "voteRoute s uid cid ty =
     (s\<lparr>likeDislikes := findOneAndDelete (\<lambda>d. ld_id d = ld_id e) (likeDislikes s)\<rparr>,
      \<lparr>status = 200,
       body = [(''message'', JString ''Vote removed''), (''action'', JString ''removed'')]\<rparr>)"
proof -
  have "c_id c = cid" using findOne_SomeD[OF assms(2)] by simp
  then show ?thesis using assms
    by (simp add: voteRoute_def findVote_def LikeDislike_findByIdAndDelete_eq)
qed

lemma vote_updated:
  assumes "ty \<in> set [''like'', ''dislike'']"
      and "findOne (\<lambda>c. c_id c = cid) (compositions s) = Some c"
      and "findVote uid cid (likeDislikes s) = Some e" and "ld_type e \<noteq> ty"
  shows "voteRoute s uid cid ty =
     (updateCompositionCounts cid
        (s\<lparr>likeDislikes := updateOne (\<lambda>d. ld_id d = ld_id e) (\<lambda>d. d\<lparr>ld_type := ty\<rparr>)
              (likeDislikes s)\<rparr>),
      \<lparr>status = 200,
       body = [(''message'', JString ''Vote updated''), (''action'', JString ''updated''),
               (''type'', JString ty)]\<rparr>)"
proof -
  have c: "c_id c = cid" using findOne_SomeD[OF assms(2)] by simp
  have "ld_composition e = cid" using findOne_SomeD[OF assms(3)[unfolded findVote_def]] by simp
  then show ?thesis using assms c
    by (auto simp add: voteRoute_def findVote_def LikeDislike_save_def likeDislike_post_doc_def)
qed

lemma vote_added:
  assumes "ty \<in> set [''like'', ''dislike'']"
      and "findOne (\<lambda>c. c_id c = cid) (compositions s) = Some c"
      and "findVote uid cid (likeDislikes s) = None"
      and "list_all (\<lambda>d. ld_id d < nextId s) (likeDislikes s)"
  shows "voteRoute s uid cid ty =
     (updateCompositionCounts cid
        (s\<lparr>nextId := Suc (nextId s),
           likeDislikes := likeDislikes s @
             [\<lparr>ld_id = nextId s, ld_user = uid, ld_composition = cid, ld_type = ty\<rparr>]\<rparr>),
      \<lparr>status = 200,
       body = [(''message'', JString ''Vote added''), (''action'', JString ''added''),
               (''type'', JString ty)]\<rparr>)"
proof -
  have c: "c_id c = cid" using findOne_SomeD[OF assms(2)] by simp
  have "findOne (\<lambda>d. ld_id d = nextId s) (likeDislikes s) = None"
    using assms(4) unfolding findOne_None_iff by (auto simp add: list_all_iff)
  then show ?thesis using assms c
    by (auto simp add: voteRoute_def findVote_def LikeDislike_save_def likeDislike_post_doc_def Let_def)
qed

section \<open>One vote per voter and target\<close>

lemma LikeDislike_save_ledger:
  assumes "LikeDislike_save b d s = Inr s'"
  shows "likeDislikes s' =
           (if b then likeDislikes s @ [d]
            else updateOne (\<lambda>x. ld_id x = ld_id d) (\<lambda>x. x\<lparr>ld_type := ld_type d\<rparr>) (likeDislikes s))"
    and "b \<Longrightarrow> findVote (ld_user d) (ld_composition d) (likeDislikes s) = None"
  using assms
  by (auto simp add: LikeDislike_save_def likeDislike_post_doc_frame findVote_def
      split: if_splits option.splits)

lemma votes_unique_append:
  assumes "votes_unique xs" "findVote (ld_user d) (ld_composition d) xs = None"
  shows "votes_unique (xs @ [d])"
proof -
  have "(ld_user d, ld_composition d) \<notin> set (map (\<lambda>d. (ld_user d, ld_composition d)) xs)"
    using assms(2) unfolding findVote_def findOne_None_iff by auto
  then show ?thesis using assms(1) by (simp add: votes_unique_def)
qed

lemma votes_unique_updateOne:
  "votes_unique xs \<Longrightarrow> votes_unique (updateOne P (\<lambda>x. x\<lparr>ld_type := ty\<rparr>) xs)"
  unfolding votes_unique_def by (subst updateOne_map_key) simp_all

lemma votes_unique_findOneAndDelete:
  "votes_unique xs \<Longrightarrow> votes_unique (findOneAndDelete P xs)"
  unfolding votes_unique_def by (rule findOneAndDelete_distinct_map)

lemma votes_unique_deleteMany:
  "votes_unique xs \<Longrightarrow> votes_unique (deleteMany P xs)"
  unfolding votes_unique_def deleteMany_def by (rule distinct_map_filter)

lemma voteRoute_votes_unique:
  assumes "votes_unique (likeDislikes s)"
  shows "votes_unique (likeDislikes (fst (voteRoute s uid cid ty)))"
proof (cases "ty \<in> set [''like'', ''dislike'']")
  case False
  then show ?thesis using assms by (simp add: vote_invalid)
next
  case ty: True
  show ?thesis
  proof (cases "findOne (\<lambda>c. c_id c = cid) (compositions s)")
    case None
    then show ?thesis using assms ty by (simp add: vote_not_found)
  next
    case (Some c)
    have c: "c_id c = cid" using findOne_SomeD[OF Some] by simp
    show ?thesis
    proof (cases "findVote uid cid (likeDislikes s)")
      case (Some e)
      show ?thesis
      proof (cases "ld_type e = ty")
        case True
        show ?thesis
          using assms by (simp add: vote_removed[OF ty \<open>findOne _ _ = Some c\<close> Some True]
              votes_unique_findOneAndDelete)
      next
        case False
        show ?thesis
          using assms by (simp add: vote_updated[OF ty \<open>findOne _ _ = Some c\<close> Some False]
              updateCompositionCounts_frame votes_unique_updateOne)
      qed
    next
      case None
      let ?d = "\<lparr>ld_id = nextId s, ld_user = uid, ld_composition = cid, ld_type = ty\<rparr>"
      let ?s1 = "s\<lparr>nextId := Suc (nextId s)\<rparr>"
      have v: "voteRoute s uid cid ty =
          (case LikeDislike_save True ?d ?s1 of
             Inl e \<Rightarrow> (?s1, message 500 ''Server error while voting on composition'')
           | Inr s' \<Rightarrow> (s', \<lparr>status = 200,
                               body = [(''message'', JString ''Vote added''),
                                       (''action'', JString ''added''),
                                       (''type'', JString ty)]\<rparr>))"
        using ty \<open>findOne _ _ = Some c\<close> None c
        by (auto simp add: voteRoute_def findVote_def Let_def)
      show ?thesis
      proof (cases "LikeDislike_save True ?d ?s1")
        case (Inl e)
        then show ?thesis using assms by (simp add: v)
      next
        case (Inr s')
        from LikeDislike_save_ledger(1)[OF Inr]
        have "likeDislikes s' = likeDislikes s @ [?d]" by simp
        moreover have "votes_unique (likeDislikes s @ [?d])"
          using assms None by (intro votes_unique_append) simp_all
        ultimately show ?thesis using Inr by (simp add: v)
      qed
    qed
  qed
qed

lemma deleteCompositionRoute_ledger:
  "likeDislikes (fst (deleteCompositionRoute s uid cid)) = likeDislikes s
   \<or> (\<exists>P. likeDislikes (fst (deleteCompositionRoute s uid cid)) = deleteMany P (likeDislikes s))"
  by (auto simp add: deleteCompositionRoute_def LikeDislike_deleteMany_eq
      Composition_findByIdAndDelete_def Let_def split: option.splits)

lemma deleteSongRoute_ledger:
  "likeDislikes (fst (deleteSongRoute s uid sid)) = likeDislikes s"
  by (simp add: deleteSongRoute_def Composition_deleteMany_def Song_findByIdAndDelete_def Let_def
      split: option.splits)

lemma createCompositionRoute_ledger:
  "likeDislikes (fst (createCompositionRoute s uid sid)) = likeDislikes s"
  by (simp add: createCompositionRoute_def Composition_save_frame Let_def split: option.splits)

lemma handle_votes_unique:
  assumes "votes_unique (likeDislikes s)"
  shows "votes_unique (likeDislikes (fst (handle s r)))"
proof (cases r)
  case (Vote uid cid ty)
  then show ?thesis using voteRoute_votes_unique[OF assms] by simp
next
  case (DeleteComposition uid cid)
  then show ?thesis
    using deleteCompositionRoute_ledger[of s uid cid] assms votes_unique_deleteMany by auto
next
  case (DeleteSong uid sid)
  then show ?thesis using assms by (simp add: deleteSongRoute_ledger)
next
  case (CreateComposition uid sid)
  then show ?thesis using assms by (simp add: createCompositionRoute_ledger)
qed

lemma run_votes_unique:
  "votes_unique (likeDislikes s) \<Longrightarrow> votes_unique (likeDislikes (run s rs))"
  by (induction rs arbitrary: s) (simp_all add: handle_votes_unique)

lemma distinct_key_count:
  assumes "distinct (map k xs)"
  shows "length (filter (\<lambda>x. k x = a) xs) \<le> 1"
  using assms
proof (induction xs)
  case Nil
  then show ?case by simp
next
  case (Cons x xs)
  show ?case
  proof (cases "k x = a")
    case True
    from Cons.prems have "k x \<notin> k ` set xs" by simp
    with True have "\<forall>y\<in>set xs. k y \<noteq> a" by blast
    then have "filter (\<lambda>x. k x = a) xs = []" by (simp add: filter_empty_conv)
    then show ?thesis using True by simp
  next
    case False
    then show ?thesis using Cons by simp
  qed
qed

lemma votes_unique_count:
  assumes "votes_unique xs"
  shows "countDocuments (\<lambda>d. ld_user d = v \<and> ld_composition d = t) xs \<le> 1"
  using distinct_key_count[OF assms[unfolded votes_unique_def], of "(v, t)"]
  by (simp add: countDocuments_def)

lemma LikeDislike_save_votes_unique:
  assumes "LikeDislike_save b d s = Inr s'" "votes_unique (likeDislikes s)"
  shows "votes_unique (likeDislikes s')"
proof (cases b)
  case True
  have "likeDislikes s' = likeDislikes s @ [d]"
    using LikeDislike_save_ledger(1)[OF assms(1)] True by simp
  moreover have "findVote (ld_user d) (ld_composition d) (likeDislikes s) = None"
    using assms(1) True by (intro LikeDislike_save_ledger(2)) simp_all
  ultimately show ?thesis using assms(2) by (simp add: votes_unique_append)
next
  case False
  have "likeDislikes s' =
      updateOne (\<lambda>x. ld_id x = ld_id d) (\<lambda>x. x\<lparr>ld_type := ld_type d\<rparr>) (likeDislikes s)"
    using LikeDislike_save_ledger(1)[OF assms(1)] False by simp
  then show ?thesis using assms(2) by (simp add: votes_unique_updateOne)
qed

lemma Rating_spec_nonzero:
  "l + d \<noteq> 0 \<Longrightarrow>
     Rating_spec l d = of_int \<lfloor>(of_nat l :: rat) / of_nat (l + d) * 5 * 10 + 1/2\<rfloor> / 10"
  unfolding Rating_spec_def by (rule if_not_P)

section \<open>The vote handler on a new vote\<close>

lemma vote_new:
  assumes "ty \<in> set [''like'', ''dislike'']"
      and "findOne (\<lambda>c. c_id c = cid) (compositions s) = Some c"
      and "findVote uid cid (likeDislikes s) = None"
  shows "voteRoute s uid cid ty =
     (case LikeDislike_save True
             \<lparr>ld_id = nextId s, ld_user = uid, ld_composition = cid, ld_type = ty\<rparr>
             (s\<lparr>nextId := Suc (nextId s)\<rparr>) of
        Inl e \<Rightarrow> (s\<lparr>nextId := Suc (nextId s)\<rparr>,
                  message 500 ''Server error while voting on composition'')
      | Inr s' \<Rightarrow> (s', \<lparr>status = 200,
                          body = [(''message'', JString ''Vote added''),
                                  (''action'', JString ''added''),
                                  (''type'', JString ty)]\<rparr>))"
proof -
  have "c_id c = cid" using findOne_SomeD[OF assms(2)] by simp
  then show ?thesis using assms
    by (auto simp add: voteRoute_def findVote_def Let_def)
qed

section \<open>Unique ids\<close>

lemma ids_freshD:
  assumes "ids_fresh s"
  shows "distinct (map ld_id (likeDislikes s))"
    and "list_all (\<lambda>d. ld_id d < nextId s) (likeDislikes s)"
    and "\<forall>d\<in>set (likeDislikes s). ld_id d \<noteq> nextId s"
  using assms by (auto simp add: ids_fresh_def list_all_iff)

lemma findOne_c_id_exists:
  assumes "map c_id ys = map c_id xs" "findOne (\<lambda>c. c_id c = i) xs = Some c"
  shows "\<exists>c'. findOne (\<lambda>c. c_id c = i) ys = Some c'"
  using findOne_c_id_map[OF assms(1), of i] assms(2) by auto

section \<open>What a vote recomputes\<close>

lemma calculateRating_voted:
  assumes "0 < likes c + dislikes c"
  shows "calculateRating c =
           (Rating (likes c) (dislikes c), c\<lparr>rating := Rating (likes c) (dislikes c)\<rparr>)"
proof -
  have "(0::rat) < of_nat (likes c) + of_nat (dislikes c)"
    using assms by (metis of_nat_0_less_iff of_nat_add)
  from fl_pos[OF this] have nz: "fl (of_nat (likes c) + of_nat (dislikes c)) \<noteq> 0" by simp
  have r: "Rating (likes c) (dislikes c) =
        fl (of_int (Math_round (fl (fl (fl (of_nat (likes c) /
              fl (of_nat (likes c) + of_nat (dislikes c))) * 5) * 10))) / 10)"
    using nz by (simp add: Rating_def calculateRating_def Let_def)
  show ?thesis using nz unfolding r by (simp add: calculateRating_def Let_def)
qed

lemma counted_vote:
  assumes "d \<in> set xs" "ld_composition d = t" "ld_type d \<in> set [''like'', ''dislike'']"
  shows "0 < likeCount t xs + dislikeCount t xs"
proof -
  have "filter (\<lambda>d. ld_composition d = t \<and> ld_type d = ''like'') xs \<noteq> []
        \<or> filter (\<lambda>d. ld_composition d = t \<and> ld_type d = ''dislike'') xs \<noteq> []"
    using assms by (auto simp add: filter_empty_conv)
  then show ?thesis by (auto simp add: likeCount_def dislikeCount_def countDocuments_def)
qed

lemma updateCompositionCounts_effect:
  assumes "findOne (\<lambda>x. c_id x = cid) (compositions t) = Some c"
      and "0 < likeCount cid (likeDislikes t) + dislikeCount cid (likeDislikes t)"
  shows "compositions (updateCompositionCounts cid t) =
           updateOne (\<lambda>x. c_id x = cid)
             (\<lambda>x. x\<lparr>likes := likeCount cid (likeDislikes t),
                    dislikes := dislikeCount cid (likeDislikes t),
                    rating := Rating (likeCount cid (likeDislikes t)) (dislikeCount cid (likeDislikes t))\<rparr>)
             (compositions t)"
    and "users (updateCompositionCounts cid t) =
           (case findOne (\<lambda>u. u_id u = composer c) (users t) of
              None \<Rightarrow> users t
            | Some u \<Rightarrow> updateOne (\<lambda>x. u_id x = u_id u)
                (\<lambda>x. x\<lparr>user_compositionsCount := countDocuments (\<lambda>x. composer x = composer c)
                           (compositions (updateCompositionCounts cid t))\<rparr>)
                (users t))"
    and "songs (updateCompositionCounts cid t) =
           (case findOne (\<lambda>x. s_id x = song c) (songs t) of
              None \<Rightarrow> songs t
            | Some sg \<Rightarrow> updateOne (\<lambda>x. s_id x = s_id sg)
                (\<lambda>x. x\<lparr>song_compositionsCount := countDocuments (\<lambda>x. song x = song c)
                           (compositions (updateCompositionCounts cid t))\<rparr>)
                (songs t))"
proof -
  let ?L = "likeCount cid (likeDislikes t)" and ?D = "dislikeCount cid (likeDislikes t)"
  let ?doc = "c\<lparr>likes := ?L, dislikes := ?D, rating := Rating ?L ?D\<rparr>"
  have cid: "c_id c = cid" using findOne_SomeD[OF assms(1)] by simp
  have "calculateRating (c\<lparr>likes := ?L, dislikes := ?D\<rparr>) = (Rating ?L ?D, ?doc)"
    using calculateRating_voted[of "c\<lparr>likes := ?L, dislikes := ?D\<rparr>"] assms(2) by simp
  then have u: "updateCompositionCounts cid t = Composition_save False ?doc t"
    using assms(1) by (simp add: updateCompositionCounts_def likeCount_def dislikeCount_def Let_def)
  let ?cs = "updateOne (\<lambda>x. c_id x = cid)
               (\<lambda>x. x\<lparr>likes := ?L, dislikes := ?D, rating := Rating ?L ?D\<rparr>) (compositions t)"
  have s: "Composition_save False ?doc t = composition_post Save ?doc (t\<lparr>compositions := ?cs\<rparr>)"
    using cid by (simp add: Composition_save_def)
  show 1: "compositions (updateCompositionCounts cid t) = ?cs"
    unfolding u s by (simp add: composition_post_frame)
  show "users (updateCompositionCounts cid t) =
           (case findOne (\<lambda>u. u_id u = composer c) (users t) of
              None \<Rightarrow> users t
            | Some u \<Rightarrow> updateOne (\<lambda>x. u_id x = u_id u)
                (\<lambda>x. x\<lparr>user_compositionsCount := countDocuments (\<lambda>x. composer x = composer c)
                           (compositions (updateCompositionCounts cid t))\<rparr>)
                (users t))"
    unfolding 1 unfolding u s
    by (simp add: composition_post_def Let_def updateCompositionsCount_frame split: option.splits)
  show "songs (updateCompositionCounts cid t) =
           (case findOne (\<lambda>x. s_id x = song c) (songs t) of
              None \<Rightarrow> songs t
            | Some sg \<Rightarrow> updateOne (\<lambda>x. s_id x = s_id sg)
                (\<lambda>x. x\<lparr>song_compositionsCount := countDocuments (\<lambda>x. song x = song c)
                           (compositions (updateCompositionCounts cid t))\<rparr>)
                (songs t))"
    unfolding 1 unfolding u s
    by (auto simp add: composition_post_def Let_def updateCompositionsCount_def
        dest: findOne_SomeD split: option.splits)
qed

section \<open>Deleting a composition\<close>

lemma deleteCompositionRoute_effect:
  assumes "findOne (\<lambda>c. c_id c = cid) (compositions s) = Some c" and "composer c = uid"
  shows "deleteCompositionRoute s uid cid =
     (s\<lparr>likeDislikes := filter (\<lambda>d. ld_composition d \<noteq> cid) (likeDislikes s),
        compositions := findOneAndDelete (\<lambda>c. c_id c = cid) (compositions s)\<rparr>,
      message 200 ''Composition deleted successfully'')"
proof -
  have "c_id c = cid" using findOne_SomeD[OF assms(1)] by simp
  then show ?thesis using assms
    by (simp add: deleteCompositionRoute_def LikeDislike_deleteMany_eq deleteMany_def
        Composition_findByIdAndDelete_def Let_def)
qed

section \<open>The claims\<close>

text \<open>
  C1 asks that after every vote operation the target's \<open>likes\<close>, \<open>dislikes\<close> and \<open>rating\<close>
  match the ledger. On the retraction path they do not: user 7 retracts the only like of
  composition 100, the ledger is empty afterwards, and the composition still has one like
  and rating 5. The row is deleted by \<^verbatim>\<open>findByIdAndDelete\<close>, for which the schema registers
  no hook.
\<close>
theorem C1_retraction_keeps_counts:
  "likeDislikes s_voted = [\<lparr>ld_id = 101, ld_user = 7, ld_composition = 100, ld_type = ''like''\<rparr>]
   \<and> json_field (snd (voteRoute s_voted 7 100 ''like'')) ''action'' = Some (JString ''removed'')
   \<and> likeDislikes (fst (voteRoute s_voted 7 100 ''like'')) = []
   \<and> compositions (fst (voteRoute s_voted 7 100 ''like''))
       = [\<lparr>c_id = 100, song = 5, composer = 10, likes = 1, dislikes = 0, rating = 5\<rparr>]"
  by code_simp

text \<open>
  C2 asks that deleting a target purges its ledger rows, removes it, and lowers the
  \<open>compositionsCount\<close> of its song and of its composer by one. The rows and the target go,
  the rows first; both counters keep their value, since nothing recomputes them on the
  deletion path: user 10 deletes composition 100, and the song and the user still count one
  composition.
\<close>
theorem C2_delete_keeps_rollups:
  "snd (deleteCompositionRoute s_voted 10 100) = message 200 ''Composition deleted successfully''
   \<and> likeDislikes (fst (deleteCompositionRoute s_voted 10 100)) = []
   \<and> compositions (fst (deleteCompositionRoute s_voted 10 100)) = []
   \<and> map song_compositionsCount (songs s_voted) = [1]
   \<and> map song_compositionsCount (songs (fst (deleteCompositionRoute s_voted 10 100))) = [1]
   \<and> map user_compositionsCount (users s_voted) = [1, 0]
   \<and> map user_compositionsCount (users (fst (deleteCompositionRoute s_voted 10 100))) = [1, 0]"
  by code_simp

text \<open>
  C3. A vote with a valid polarity on an existing target toggles: without an entry for the
  voter and the target one is appended and the action is \<open>added\<close>, and the same vote again
  is \<open>removed\<close> and gives back the ledger as it was; an entry of the other polarity is
  changed in place and the action is \<open>updated\<close>; an entry of the same polarity is deleted
  and the action is \<open>removed\<close>.
\<close>
theorem C3_vote_toggle:
  assumes "ty \<in> set [''like'', ''dislike'']"
      and "findOne (\<lambda>c. c_id c = cid) (compositions s) = Some c"
      and "ids_fresh s"
  shows "(findVote uid cid (likeDislikes s) = None \<longrightarrow>
            json_field (snd (voteRoute s uid cid ty)) ''action'' = Some (JString ''added'')
          \<and> likeDislikes (fst (voteRoute s uid cid ty)) = likeDislikes s @
               [\<lparr>ld_id = nextId s, ld_user = uid, ld_composition = cid, ld_type = ty\<rparr>]
          \<and> json_field (snd (voteRoute (fst (voteRoute s uid cid ty)) uid cid ty)) ''action''
               = Some (JString ''removed'')
          \<and> likeDislikes (fst (voteRoute (fst (voteRoute s uid cid ty)) uid cid ty)) = likeDislikes s)
       \<and> (\<forall>e. findVote uid cid (likeDislikes s) = Some e \<and> ld_type e \<noteq> ty \<longrightarrow>
            json_field (snd (voteRoute s uid cid ty)) ''action'' = Some (JString ''updated'')
          \<and> likeDislikes (fst (voteRoute s uid cid ty))
               = map (\<lambda>d. if ld_id d = ld_id e then d\<lparr>ld_type := ty\<rparr> else d) (likeDislikes s))
       \<and> (\<forall>e. findVote uid cid (likeDislikes s) = Some e \<and> ld_type e = ty \<longrightarrow>
            json_field (snd (voteRoute s uid cid ty)) ''action'' = Some (JString ''removed'')
          \<and> likeDislikes (fst (voteRoute s uid cid ty))
               = filter (\<lambda>d. ld_id d \<noteq> ld_id e) (likeDislikes s))"
proof -
  note fresh = ids_freshD[OF assms(3)]
  let ?new = "\<lparr>ld_id = nextId s, ld_user = uid, ld_composition = cid, ld_type = ty\<rparr>"
  have added: "json_field (snd (voteRoute s uid cid ty)) ''action'' = Some (JString ''added'')
          \<and> likeDislikes (fst (voteRoute s uid cid ty)) = likeDislikes s @ [?new]
          \<and> json_field (snd (voteRoute (fst (voteRoute s uid cid ty)) uid cid ty)) ''action''
               = Some (JString ''removed'')
          \<and> likeDislikes (fst (voteRoute (fst (voteRoute s uid cid ty)) uid cid ty)) = likeDislikes s"
    if none: "findVote uid cid (likeDislikes s) = None"
  proof -
    let ?t = "s\<lparr>nextId := Suc (nextId s), likeDislikes := likeDislikes s @ [?new]\<rparr>"
    let ?s1 = "updateCompositionCounts cid ?t"
    have v1: "voteRoute s uid cid ty =
        (?s1, \<lparr>status = 200,
               body = [(''message'', JString ''Vote added''), (''action'', JString ''added''),
                       (''type'', JString ty)]\<rparr>)"
      by (rule vote_added[OF assms(1,2) none fresh(2)])
    have l1: "likeDislikes ?s1 = likeDislikes s @ [?new]"
      by (simp add: updateCompositionCounts_frame)
    have "map c_id (compositions ?s1) = map c_id (compositions s)"
      by (simp add: updateCompositionCounts_ids)
    from findOne_c_id_exists[OF this assms(2)]
    obtain c1 where c1: "findOne (\<lambda>c. c_id c = cid) (compositions ?s1) = Some c1" by blast
    have f1: "findVote uid cid (likeDislikes ?s1) = Some ?new"
      using none unfolding l1 findVote_def by (simp add: findOne_append) (simp add: findOne_def)
    have v2: "voteRoute ?s1 uid cid ty =
        (?s1\<lparr>likeDislikes := findOneAndDelete (\<lambda>d. ld_id d = ld_id ?new) (likeDislikes ?s1)\<rparr>,
         \<lparr>status = 200,
          body = [(''message'', JString ''Vote removed''), (''action'', JString ''removed'')]\<rparr>)"
      by (rule vote_removed[OF assms(1) c1 f1]) simp
    have "findOneAndDelete (\<lambda>d. ld_id d = nextId s) (likeDislikes s @ [?new]) = likeDislikes s"
      using fresh(3) by (intro findOneAndDelete_append_last) simp_all
    then have l2: "likeDislikes (fst (voteRoute ?s1 uid cid ty)) = likeDislikes s"
      unfolding v2 l1 by simp
    have a1: "json_field (snd (voteRoute s uid cid ty)) ''action'' = Some (JString ''added'')"
      unfolding v1 by (simp add: json_field_def)
    have a2: "json_field (snd (voteRoute ?s1 uid cid ty)) ''action'' = Some (JString ''removed'')"
      unfolding v2 by (simp add: json_field_def)
    have s1: "fst (voteRoute s uid cid ty) = ?s1" unfolding v1 by simp
    show ?thesis unfolding s1 using a1 l1 a2 l2 by (simp only: simp_thms)
  qed
  have updated: "json_field (snd (voteRoute s uid cid ty)) ''action'' = Some (JString ''updated'')
          \<and> likeDislikes (fst (voteRoute s uid cid ty))
               = map (\<lambda>d. if ld_id d = ld_id e then d\<lparr>ld_type := ty\<rparr> else d) (likeDislikes s)"
    if "findVote uid cid (likeDislikes s) = Some e" "ld_type e \<noteq> ty" for e
    unfolding vote_updated[OF assms(1,2) that]
    by (simp add: json_field_def updateCompositionCounts_frame updateOne_distinct[OF fresh(1)])
  have removed: "json_field (snd (voteRoute s uid cid ty)) ''action'' = Some (JString ''removed'')
          \<and> likeDislikes (fst (voteRoute s uid cid ty))
               = filter (\<lambda>d. ld_id d \<noteq> ld_id e) (likeDislikes s)"
    if "findVote uid cid (likeDislikes s) = Some e" "ld_type e = ty" for e
    unfolding vote_removed[OF assms(1,2) that]
    by (simp add: json_field_def findOneAndDelete_distinct[OF fresh(1)])
  show ?thesis using added updated removed by blast
qed

theorem C3_vote_toggle_witness:
  "ids_fresh s_composed \<and> findVote 7 100 (likeDislikes s_composed) = None
   \<and> json_field (snd (voteRoute s_composed 7 100 ''like'')) ''action'' = Some (JString ''added'')
   \<and> likeDislikes (fst (voteRoute s_composed 7 100 ''like''))
        = [\<lparr>ld_id = 101, ld_user = 7, ld_composition = 100, ld_type = ''like''\<rparr>]
   \<and> json_field (snd (voteRoute (fst (voteRoute s_composed 7 100 ''like'')) 7 100 ''like'')) ''action''
        = Some (JString ''removed'')
   \<and> likeDislikes (fst (voteRoute (fst (voteRoute s_composed 7 100 ''like'')) 7 100 ''like'')) = []
   \<and> ids_fresh s_voted
   \<and> findVote 7 100 (likeDislikes s_voted)
        = Some \<lparr>ld_id = 101, ld_user = 7, ld_composition = 100, ld_type = ''like''\<rparr>
   \<and> json_field (snd (voteRoute s_voted 7 100 ''dislike'')) ''action'' = Some (JString ''updated'')
   \<and> likeDislikes (fst (voteRoute s_voted 7 100 ''dislike''))
        = [\<lparr>ld_id = 101, ld_user = 7, ld_composition = 100, ld_type = ''dislike''\<rparr>]
   \<and> json_field (snd (voteRoute s_voted 7 100 ''like'')) ''action'' = Some (JString ''removed'')
   \<and> likeDislikes (fst (voteRoute s_voted 7 100 ''like'')) = []"
proof -
  let ?d = "\<lparr>ld_id = 101, ld_user = 7, ld_composition = 100, ld_type = ''like''\<rparr>"
  let ?c0 = "\<lparr>c_id = 100, song = 5, composer = 10, likes = 0, dislikes = 0, rating = 0\<rparr>"
  let ?c1 = "\<lparr>c_id = 100, song = 5, composer = 10, likes = 1, dislikes = 0, rating = 5\<rparr>"
  have ty1: "''like'' \<in> set [''like'', ''dislike'']" and ty2: "''dislike'' \<in> set [''like'', ''dislike'']"
    by simp_all
  have l0: "likeDislikes s_composed = []" and n0: "nextId s_composed = 101" by code_simp+
  have c0: "findOne (\<lambda>c. c_id c = 100) (compositions s_composed) = Some ?c0" by code_simp
  have i0: "ids_fresh s_composed" by code_simp
  have f0: "findVote 7 100 (likeDislikes s_composed) = None" by code_simp
  have l1: "likeDislikes s_voted = [?d]" by code_simp
  have c1: "findOne (\<lambda>c. c_id c = 100) (compositions s_voted) = Some ?c1" by code_simp
  have i1: "ids_fresh s_voted" by code_simp
  have f1: "findVote 7 100 (likeDislikes s_voted) = Some ?d" by code_simp
  show ?thesis
    using i0 f0 i1 f1 C3_vote_toggle[OF ty1 c0 i0, of 7] C3_vote_toggle[OF ty2 c1 i1, of 7]
      C3_vote_toggle[OF ty1 c1 i1, of 7]
    by (simp add: l0 n0 l1)
qed

text \<open>
  C4. Starting from an empty ledger, after any sequence of requests the ledger holds at most
  one entry for a voter \<open>v\<close> and a target \<open>t\<close>. While it holds one, saving a new entry
  for the same pair is rejected by the store (by the schema, if its type is no polarity)
  and nothing is inserted; and whatever is saved with success, the ledger still holds at
  most one entry for each pair.
\<close>
theorem C4_one_vote_per_pair:
  assumes "likeDislikes s0 = []"
  shows "countDocuments (\<lambda>d. ld_user d = v \<and> ld_composition d = t) (likeDislikes (run s0 rs)) \<le> 1
       \<and> (findVote v t (likeDislikes (run s0 rs)) \<noteq> None \<longrightarrow>
            LikeDislike_save True \<lparr>ld_id = i, ld_user = v, ld_composition = t, ld_type = p\<rparr> (run s0 rs)
              = Inl (if p \<in> set [''like'', ''dislike''] then DuplicateKey else ValidationError))
       \<and> (LikeDislike_save isNew doc (run s0 rs) = Inr s' \<longrightarrow>
            countDocuments (\<lambda>d. ld_user d = v \<and> ld_composition d = t) (likeDislikes s') \<le> 1)"
proof -
  have "votes_unique (likeDislikes s0)" using assms by (simp add: votes_unique_def)
  then have u: "votes_unique (likeDislikes (run s0 rs))" by (rule run_votes_unique)
  then have 1: "countDocuments (\<lambda>d. ld_user d = v \<and> ld_composition d = t) (likeDislikes (run s0 rs)) \<le> 1"
    by (rule votes_unique_count)
  have 2: "LikeDislike_save True \<lparr>ld_id = i, ld_user = v, ld_composition = t, ld_type = p\<rparr> s
              = Inl (if p \<in> set [''like'', ''dislike''] then DuplicateKey else ValidationError)"
    if "findVote v t (likeDislikes s) \<noteq> None" for s
    using that by (auto simp add: LikeDislike_save_def findVote_def split: option.splits)
  have 3: "countDocuments (\<lambda>d. ld_user d = v \<and> ld_composition d = t) (likeDislikes s') \<le> 1"
    if "LikeDislike_save isNew doc (run s0 rs) = Inr s'"
    using LikeDislike_save_votes_unique[OF that u] by (rule votes_unique_count)
  show ?thesis using 1 2 3 by blast
qed

theorem C4_one_vote_per_pair_witness:
  "likeDislikes base = []
   \<and> countDocuments (\<lambda>d. ld_user d = 7 \<and> ld_composition d = 100) (likeDislikes s_voted) \<le> 1
   \<and> findVote 7 100 (likeDislikes s_voted) \<noteq> None
   \<and> LikeDislike_save True \<lparr>ld_id = 500, ld_user = 7, ld_composition = 100, ld_type = ''dislike''\<rparr>
       s_voted = Inl DuplicateKey
   \<and> LikeDislike_save True \<lparr>ld_id = 500, ld_user = 8, ld_composition = 100, ld_type = ''dislike''\<rparr>
       s_voted
       = Inr (updateCompositionCounts 100
           (s_voted\<lparr>likeDislikes := likeDislikes s_voted @
              [\<lparr>ld_id = 500, ld_user = 8, ld_composition = 100, ld_type = ''dislike''\<rparr>]\<rparr>))
   \<and> countDocuments (\<lambda>d. ld_user d = 7 \<and> ld_composition d = 100)
       (likeDislikes (updateCompositionCounts 100
           (s_voted\<lparr>likeDislikes := likeDislikes s_voted @
              [\<lparr>ld_id = 500, ld_user = 8, ld_composition = 100, ld_type = ''dislike''\<rparr>]\<rparr>))) \<le> 1"
proof -
  let ?rs = "[CreateComposition 10 5, Vote 7 100 ''like'']"
  let ?doc = "\<lparr>ld_id = 500, ld_user = 8, ld_composition = 100, ld_type = ''dislike''\<rparr>"
  have h: "likeDislikes base = []" by (simp add: base_def)
  have r: "run base ?rs = s_voted" by (simp only: s_voted_def)
  have f: "findVote 7 100 (likeDislikes s_voted) \<noteq> None" by code_simp
  have l: "likeDislikes s_voted = [\<lparr>ld_id = 101, ld_user = 7, ld_composition = 100, ld_type = ''like''\<rparr>]"
    by code_simp
  have s: "LikeDislike_save True ?doc s_voted
       = Inr (updateCompositionCounts 100 (s_voted\<lparr>likeDislikes := likeDislikes s_voted @ [?doc]\<rparr>))"
    by (simp add: LikeDislike_save_def likeDislike_post_doc_def l findOne_def)
  show ?thesis
    using h f s C4_one_vote_per_pair[OF h, of 7 100 ?rs 500 "''dislike''" True ?doc, unfolded r]
    by simp
qed

text \<open>
  C5, as amended. For counts with \<open>likes + dislikes \<le> 2\<^sup>4\<^sup>4\<close> the calculator returns \<open>0\<close>
  without votes; otherwise it returns the double nearest to the specification's value,
  except that where the exact \<open>likes / (likes + dislikes) * 50\<close> lies halfway between two
  integers it may return the double nearest to one tenth less. The value returned for a
  document depends on its two counts only.
\<close>
theorem C5_rating_value:
  assumes "l + d \<le> 2 ^ 44"
  shows "(l + d = 0 \<longrightarrow> Rating l d = 0)
       \<and> (l + d \<noteq> 0 \<and> \<not> is_tie l d \<longrightarrow> Rating l d = fl (Rating_spec l d))
       \<and> (l + d \<noteq> 0 \<and> is_tie l d \<longrightarrow>
             Rating l d = fl (Rating_spec l d) \<or> Rating l d = fl (Rating_spec l d - 1/10))
       \<and> fst (calculateRating c) = Rating (likes c) (dislikes c)"
proof -
  have "(2::nat) ^ 44 \<le> 2 ^ 53" by simp
  then have b: "l + d \<le> 2 ^ 53" using assms by linarith
  note R = Rating_eq[OF b]
  have zero: "Rating l d = 0" if "l + d = 0" unfolding R using that by (rule if_P)
  have nontie: "Rating l d = fl (Rating_spec l d)" if nz: "l + d \<noteq> 0" and nt: "\<not> is_tie l d"
  proof -
    have mr: "Math_round (scaled l (l + d)) = \<lfloor>(of_nat l :: rat) / of_nat (l + d) * 5 * 10 + 1/2\<rfloor>"
      using nz nt assms by (intro Math_round_scaled(1)) (simp_all add: is_tie_def)
    have "Rating l d = rounded l (l + d)" unfolding R using nz by (rule if_not_P)
    then show ?thesis unfolding rounded_def Rating_spec_nonzero[OF nz] by (simp only: mr)
  qed
  have tie: "Rating l d = fl (Rating_spec l d) \<or> Rating l d = fl (Rating_spec l d - 1/10)"
    if nz: "l + d \<noteq> 0"
  proof -
    let ?K = "\<lfloor>(of_nat l :: rat) / of_nat (l + d) * 5 * 10 + 1/2\<rfloor>"
    have "Math_round (scaled l (l + d)) = ?K \<or> Math_round (scaled l (l + d)) = ?K - 1"
      using nz assms by (intro Math_round_scaled(2)) simp_all
    moreover have "(of_int (?K - 1) :: rat) / 10 = of_int ?K / 10 - 1/10"
      by (simp add: diff_divide_distrib)
    moreover have "Rating l d = rounded l (l + d)" unfolding R using nz by (rule if_not_P)
    ultimately show ?thesis
      unfolding rounded_def Rating_spec_nonzero[OF nz] by metis
  qed
  show ?thesis using zero nontie tie calculateRating_Rating by blast
qed

theorem C5_rating_value_witness:
  "Rating 0 0 = 0
   \<and> \<not> is_tie 1 2 \<and> Rating 1 2 = fl (Rating_spec 1 2)
   \<and> is_tie 47 53 \<and> (Rating 47 53 = fl (Rating_spec 47 53) \<or> Rating 47 53 = fl (Rating_spec 47 53 - 1/10))"
proof -
  have t1: "\<not> is_tie 1 2" by code_simp
  have t2: "is_tie 47 53" by code_simp
  have b0: "(0::nat) + 0 \<le> 2 ^ 44" and b1: "(1::nat) + 2 \<le> 2 ^ 44" and b2: "(47::nat) + 53 \<le> 2 ^ 44"
    by simp_all
  show ?thesis
    using t1 t2 C5_rating_value[OF b0] C5_rating_value[OF b1] C5_rating_value[OF b2]
    by simp
qed

text \<open>
  C5 as stated fails: with 47 likes and 53 dislikes the exact value is 2.35 and rounds half
  up to 2.4, while the code's product \<^verbatim>\<open>ratio * 5 * 10\<close> is a double below 23.5 and the
  result is the double 2.3.
\<close>
theorem C5_tie_rounds_down:
  "Rating_spec 47 53 = 24 / 10 \<and> Rating 47 53 = fl (23 / 10) \<and> Rating 47 53 \<noteq> fl (Rating_spec 47 53)"
  by code_simp



text \<open>
  C7 (amended). A vote that adds or changes an entry recomputes the target's \<open>likes\<close>,
  \<open>dislikes\<close> and \<open>rating\<close> from the ledger and saves the target; that save runs the
  composition's \<open>Save\<close> hook, which recomputes the \<open>compositionsCount\<close> of the target's
  composer and of its song from the stored compositions. No other user or song changes.
\<close>
theorem C7_vote_recomputes_rollups:
  assumes "ty \<in> set [''like'', ''dislike'']"
      and "findOne (\<lambda>c. c_id c = cid) (compositions s) = Some c"
      and "ids_fresh s"
      and "findVote uid cid (likeDislikes s) = None
           \<or> (\<exists>e. findVote uid cid (likeDislikes s) = Some e \<and> ld_type e \<noteq> ty)"
  shows "let s' = fst (voteRoute s uid cid ty);
             l = likeCount cid (likeDislikes s'); d = dislikeCount cid (likeDislikes s')
         in compositions s' =
              updateOne (\<lambda>x. c_id x = cid)
                (\<lambda>x. x\<lparr>likes := l, dislikes := d, rating := Rating l d\<rparr>) (compositions s)
          \<and> users s' =
              (case findOne (\<lambda>u. u_id u = composer c) (users s) of
                 None \<Rightarrow> users s
               | Some u \<Rightarrow> updateOne (\<lambda>x. u_id x = u_id u)
                   (\<lambda>x. x\<lparr>user_compositionsCount :=
                            countDocuments (\<lambda>x. composer x = composer c) (compositions s')\<rparr>)
                   (users s))
          \<and> songs s' =
              (case findOne (\<lambda>x. s_id x = song c) (songs s) of
                 None \<Rightarrow> songs s
               | Some sg \<Rightarrow> updateOne (\<lambda>x. s_id x = s_id sg)
                   (\<lambda>x. x\<lparr>song_compositionsCount :=
                            countDocuments (\<lambda>x. song x = song c) (compositions s')\<rparr>)
                   (songs s))"
proof -
  note fresh = ids_freshD[OF assms(3)]
  obtain t where v: "fst (voteRoute s uid cid ty) = updateCompositionCounts cid t"
    and t: "compositions t = compositions s" "users t = users s" "songs t = songs s"
    and voted: "\<exists>d\<in>set (likeDislikes t). ld_composition d = cid \<and> ld_type d = ty"
  proof (cases "findVote uid cid (likeDislikes s)")
    case None
    let ?new = "\<lparr>ld_id = nextId s, ld_user = uid, ld_composition = cid, ld_type = ty\<rparr>"
    let ?t = "s\<lparr>nextId := Suc (nextId s), likeDislikes := likeDislikes s @ [?new]\<rparr>"
    show ?thesis
    proof (rule that[of ?t])
      show "fst (voteRoute s uid cid ty) = updateCompositionCounts cid ?t"
        unfolding vote_added[OF assms(1,2) None fresh(2)] by simp
    qed simp_all
  next
    case (Some e)
    then have ne: "ld_type e \<noteq> ty" using assms(4) by auto
    have e: "e \<in> set (likeDislikes s)" "ld_composition e = cid"
      using findOne_SomeD[OF Some[unfolded findVote_def]] by simp_all
    let ?xs = "updateOne (\<lambda>d. ld_id d = ld_id e) (\<lambda>d. d\<lparr>ld_type := ty\<rparr>) (likeDislikes s)"
    let ?t = "s\<lparr>likeDislikes := ?xs\<rparr>"
    have "e\<lparr>ld_type := ty\<rparr> \<in> set ?xs"
      unfolding updateOne_distinct[OF fresh(1)] using e(1) by force
    then have "\<exists>d\<in>set ?xs. ld_composition d = cid \<and> ld_type d = ty"
      using e(2) by (intro bexI[of _ "e\<lparr>ld_type := ty\<rparr>"]) simp_all
    show ?thesis
    proof (rule that[of ?t])
      show "fst (voteRoute s uid cid ty) = updateCompositionCounts cid ?t"
        unfolding vote_updated[OF assms(1,2) Some ne] by simp
      show "\<exists>d\<in>set (likeDislikes ?t). ld_composition d = cid \<and> ld_type d = ty"
        using \<open>\<exists>d\<in>set ?xs. ld_composition d = cid \<and> ld_type d = ty\<close> by simp
    qed simp_all
  qed
  from voted obtain d where d: "d \<in> set (likeDislikes t)" "ld_composition d = cid" "ld_type d = ty"
    by blast
  have pos: "0 < likeCount cid (likeDislikes t) + dislikeCount cid (likeDislikes t)"
    using d(1,2) assms(1) unfolding d(3)[symmetric] by (rule counted_vote)
  have c: "findOne (\<lambda>x. c_id x = cid) (compositions t) = Some c" using assms(2) t(1) by simp
  have l: "likeDislikes (fst (voteRoute s uid cid ty)) = likeDislikes t"
    unfolding v by (simp add: updateCompositionCounts_frame)
  note eff = updateCompositionCounts_effect[OF c pos]
  show ?thesis
    unfolding Let_def l unfolding v using eff(1) eff(2) eff(3) unfolding t by (simp only: simp_thms)
qed

theorem C7_vote_recomputes_rollups_witness:
  "ids_fresh s_stale \<and> findVote 7 100 (likeDislikes s_stale) = None
   \<and> map song_compositionsCount (songs s_stale) = [2]
   \<and> songs (fst (voteRoute s_stale 7 100 ''like'')) =
       [\<lparr>s_id = 5, addedBy = 10,
         song_compositionsCount = countDocuments (\<lambda>x. song x = 5)
                                    (compositions (fst (voteRoute s_stale 7 100 ''like'')))\<rparr>]"
proof -
  let ?c = "\<lparr>c_id = 100, song = 5, composer = 10, likes = 0, dislikes = 0, rating = 0\<rparr>"
  have ty: "''like'' \<in> set [''like'', ''dislike'']" by simp
  have c: "findOne (\<lambda>c. c_id c = 100) (compositions s_stale) = Some ?c" by code_simp
  have i: "ids_fresh s_stale" by code_simp
  have f: "findVote 7 100 (likeDislikes s_stale) = None" by code_simp
  have sg: "songs s_stale = [\<lparr>s_id = 5, addedBy = 10, song_compositionsCount = 2\<rparr>]" by code_simp
  have h: "findVote 7 100 (likeDislikes s_stale) = None
           \<or> (\<exists>e. findVote 7 100 (likeDislikes s_stale) = Some e \<and> ld_type e \<noteq> ''like'')"
    using f by simp
  show ?thesis
    using i f C7_vote_recomputes_rollups[OF ty c i h]
    by (simp add: sg Let_def findOne_def)
qed

text \<open>
  C7 as stated fails: a vote does touch the roll-up counters. After two compositions were
  created and one deleted, song 5 and user 10 still count two; the next vote on the
  remaining composition sets both to one.
\<close>
theorem C7_vote_changes_rollups:
  "map song_compositionsCount (songs s_stale) = [2]
   \<and> map song_compositionsCount (songs (fst (voteRoute s_stale 7 100 ''like''))) = [1]
   \<and> map user_compositionsCount (users s_stale) = [2, 0]
   \<and> map user_compositionsCount (users (fst (voteRoute s_stale 7 100 ''like''))) = [1, 0]"
  by code_simp

text \<open>
  C8 (amended). A vote answered with status 200 carries an \<open>action\<close> of \<open>added\<close>,
  \<open>updated\<close> or \<open>removed\<close>; with \<open>added\<close> and \<open>updated\<close> the field \<open>type\<close> is the submitted
  polarity, with \<open>removed\<close> the response has no field \<open>type\<close>.
\<close>
theorem C8_vote_response_shape:
  "status (snd (voteRoute s uid cid ty)) = 200 \<longrightarrow>
     (json_field (snd (voteRoute s uid cid ty)) ''action'' = Some (JString ''added'')
        \<and> json_field (snd (voteRoute s uid cid ty)) ''type'' = Some (JString ty)
        \<and> ty \<in> set [''like'', ''dislike'']
      \<or> json_field (snd (voteRoute s uid cid ty)) ''action'' = Some (JString ''updated'')
        \<and> json_field (snd (voteRoute s uid cid ty)) ''type'' = Some (JString ty)
        \<and> ty \<in> set [''like'', ''dislike'']
      \<or> json_field (snd (voteRoute s uid cid ty)) ''action'' = Some (JString ''removed'')
        \<and> json_field (snd (voteRoute s uid cid ty)) ''type'' = None)"
proof (cases "ty \<in> set [''like'', ''dislike'']")
  case False
  then show ?thesis by (simp add: vote_invalid)
next
  case ty: True
  show ?thesis
  proof (cases "findOne (\<lambda>c. c_id c = cid) (compositions s)")
    case None
    then show ?thesis using ty by (simp add: vote_not_found message_def)
  next
    case (Some c)
    note c = this
    show ?thesis
    proof (cases "findVote uid cid (likeDislikes s)")
      case (Some e)
      show ?thesis
      proof (cases "ld_type e = ty")
        case True
        show ?thesis by (simp add: vote_removed[OF ty c Some True] json_field_def)
      next
        case False
        show ?thesis using ty by (simp add: vote_updated[OF ty c Some False] json_field_def)
      qed
    next
      case None
      show ?thesis
      proof (cases "LikeDislike_save True
             \<lparr>ld_id = nextId s, ld_user = uid, ld_composition = cid, ld_type = ty\<rparr>
             (s\<lparr>nextId := Suc (nextId s)\<rparr>)")
        case (Inl e)
        then show ?thesis by (simp add: vote_new[OF ty c None] message_def)
      next
        case (Inr s')
        then show ?thesis using ty by (simp add: vote_new[OF ty c None] json_field_def)
      qed
    qed
  qed
qed

theorem C8_vote_response_shape_witness:
  "status (snd (voteRoute s_composed 7 100 ''like'')) = 200
   \<and> json_field (snd (voteRoute s_composed 7 100 ''like'')) ''action'' = Some (JString ''added'')
   \<and> json_field (snd (voteRoute s_composed 7 100 ''like'')) ''type'' = Some (JString ''like'')
   \<and> status (snd (voteRoute s_voted 7 100 ''dislike'')) = 200
   \<and> json_field (snd (voteRoute s_voted 7 100 ''dislike'')) ''action'' = Some (JString ''updated'')
   \<and> json_field (snd (voteRoute s_voted 7 100 ''dislike'')) ''type'' = Some (JString ''dislike'')
   \<and> status (snd (voteRoute s_voted 7 100 ''like'')) = 200
   \<and> json_field (snd (voteRoute s_voted 7 100 ''like'')) ''action'' = Some (JString ''removed'')
   \<and> json_field (snd (voteRoute s_voted 7 100 ''like'')) ''type'' = None"
proof -
  have a: "status (snd (voteRoute s_composed 7 100 ''like'')) = 200
           \<and> json_field (snd (voteRoute s_composed 7 100 ''like'')) ''action'' = Some (JString ''added'')"
    by code_simp
  have b: "status (snd (voteRoute s_voted 7 100 ''dislike'')) = 200
           \<and> json_field (snd (voteRoute s_voted 7 100 ''dislike'')) ''action'' = Some (JString ''updated'')"
    by code_simp
  have c: "status (snd (voteRoute s_voted 7 100 ''like'')) = 200
           \<and> json_field (snd (voteRoute s_voted 7 100 ''like'')) ''action'' = Some (JString ''removed'')"
    by code_simp
  show ?thesis
    using a b c C8_vote_response_shape[of s_composed 7 100 "''like''"]
      C8_vote_response_shape[of s_voted 7 100 "''dislike''"]
      C8_vote_response_shape[of s_voted 7 100 "''like''"]
    by simp
qed

text \<open>
  C8 as stated fails: the response to a retraction has no \<open>type\<close> field, rather than one
  that is null.
\<close>
theorem C8_removed_has_no_type:
  "status (snd (voteRoute s_voted 7 100 ''like'')) = 200
   \<and> json_field (snd (voteRoute s_voted 7 100 ''like'')) ''action'' = Some (JString ''removed'')
   \<and> json_field (snd (voteRoute s_voted 7 100 ''like'')) ''type'' \<noteq> Some JNull"
  by code_simp



text \<open>
  C10. Deleting a song by the user who added it removes the song and every composition of
  it and leaves the ledger as it was: each vote whose target is no composition of another
  song is still there, and its target is not.
\<close>
theorem C10_song_delete_orphans_votes:
  assumes "findOne (\<lambda>x. s_id x = sid) (songs s) = Some sg" and "addedBy sg = uid"
  shows "snd (deleteSongRoute s uid sid)
           = message 200 ''Song and all related compositions deleted successfully''
       \<and> songs (fst (deleteSongRoute s uid sid)) = findOneAndDelete (\<lambda>x. s_id x = sid) (songs s)
       \<and> compositions (fst (deleteSongRoute s uid sid)) = filter (\<lambda>c. song c \<noteq> sid) (compositions s)
       \<and> likeDislikes (fst (deleteSongRoute s uid sid)) = likeDislikes s
       \<and> (\<forall>d\<in>set (likeDislikes s).
             findOne (\<lambda>c. c_id c = ld_composition d \<and> song c \<noteq> sid) (compositions s) = None \<longrightarrow>
               d \<in> set (likeDislikes (fst (deleteSongRoute s uid sid)))
             \<and> findOne (\<lambda>c. c_id c = ld_composition d)
                  (compositions (fst (deleteSongRoute s uid sid))) = None)"
proof -
  have sid: "s_id sg = sid" using findOne_SomeD[OF assms(1)] by simp
  have r: "deleteSongRoute s uid sid =
      (s\<lparr>compositions := filter (\<lambda>c. song c \<noteq> sid) (compositions s),
         songs := findOneAndDelete (\<lambda>x. s_id x = sid) (songs s)\<rparr>,
       message 200 ''Song and all related compositions deleted successfully'')"
    using assms sid
    by (simp add: deleteSongRoute_def Composition_deleteMany_def Song_findByIdAndDelete_def
        deleteMany_def Let_def)
  have orphan: "findOne (\<lambda>c. c_id c = i) (filter (\<lambda>c. song c \<noteq> sid) (compositions s)) = None"
    if "findOne (\<lambda>c. c_id c = i \<and> song c \<noteq> sid) (compositions s) = None" for i
    using that unfolding findOne_None_iff by auto
  show ?thesis unfolding r using orphan by simp
qed

theorem C10_song_delete_orphans_votes_witness:
  "findOne (\<lambda>x. s_id x = 5) (songs s_voted) = Some \<lparr>s_id = 5, addedBy = 10, song_compositionsCount = 1\<rparr>
   \<and> findOne (\<lambda>c. c_id c = 100) (compositions s_voted)
        = Some \<lparr>c_id = 100, song = 5, composer = 10, likes = 1, dislikes = 0, rating = 5\<rparr>
   \<and> songs (fst (deleteSongRoute s_voted 10 5)) = []
   \<and> compositions (fst (deleteSongRoute s_voted 10 5)) = []
   \<and> likeDislikes (fst (deleteSongRoute s_voted 10 5)) = likeDislikes s_voted
   \<and> \<lparr>ld_id = 101, ld_user = 7, ld_composition = 100, ld_type = ''like''\<rparr>
        \<in> set (likeDislikes (fst (deleteSongRoute s_voted 10 5)))
   \<and> findOne (\<lambda>c. c_id c = 100) (compositions (fst (deleteSongRoute s_voted 10 5))) = None"
proof -
  let ?sg = "\<lparr>s_id = 5, addedBy = 10, song_compositionsCount = 1\<rparr>"
  let ?d = "\<lparr>ld_id = 101, ld_user = 7, ld_composition = 100, ld_type = ''like''\<rparr>"
  let ?c = "\<lparr>c_id = 100, song = 5, composer = 10, likes = 1, dislikes = 0, rating = 5\<rparr>"
  have v: "likeDislikes s_voted = [?d]" by code_simp
  have c: "compositions s_voted = [?c]" by code_simp
  have sg: "songs s_voted = [?sg]" by code_simp
  have a: "findOne (\<lambda>x. s_id x = 5) (songs s_voted) = Some ?sg" by (simp add: sg findOne_def)
  have b: "addedBy ?sg = 10" by simp
  show ?thesis
    using a C10_song_delete_orphans_votes[OF a b]
    by (simp add: v c sg findOne_def)
qed

end
